theory Spec2Isabelle
  imports Complex_Main
begin

section \<open>CGKR: a shallow embedding of \<open>src/cgkr/model.py\<close>\<close>

text \<open>
  The recommender is written against PyTorch tensors and SciPy sparse matrices. A tensor is
  modelled as PyTorch stores it: a shape and the elements in row-major order. Floating-point
  numbers are modelled by the reals, so every statement below is one of exact real
  arithmetic. Every Python exception is a value of \<open>error\<close>; an operation that can raise
  returns \<open>error + 'a\<close>, with \<open>Inl\<close> for the exception.
\<close>

subsection \<open>Errors and sequencing\<close>

datatype error = IndexError | RuntimeError | TypeError | KeyError | ValueError | ZeroDivisionError

definition and_then :: "error + 'a \<Rightarrow> ('a \<Rightarrow> error + 'b) \<Rightarrow> error + 'b" where
  "and_then r f = (case r of Inl e \<Rightarrow> Inl e | Inr x \<Rightarrow> f x)"

text \<open>\<open>for i in xs: s = body(i, s)\<close>, stopping at the first exception.\<close>

fun for_each :: "'i list \<Rightarrow> ('i \<Rightarrow> 's \<Rightarrow> error + 's) \<Rightarrow> 's \<Rightarrow> error + 's" where
  "for_each [] body s = Inr s"
| "for_each (i # is) body s = and_then (body i s) (for_each is body)"

text \<open>A list comprehension \<open>[f(x) for x in xs]\<close> whose \<open>f\<close> may raise.\<close>

fun map_r :: "('a \<Rightarrow> error + 'b) \<Rightarrow> 'a list \<Rightarrow> error + 'b list" where
  "map_r f [] = Inr []"
| "map_r f (x # xs) = and_then (f x) (\<lambda>y. and_then (map_r f xs) (\<lambda>ys. Inr (y # ys)))"

text \<open>Python list indexing \<open>xs[i]\<close> with a non-negative index.\<close>

definition nth_r :: "'a list \<Rightarrow> nat \<Rightarrow> error + 'a" where
  "nth_r xs i = (if i < length xs then Inr (xs ! i) else Inl IndexError)"

subsection \<open>Dense tensors\<close>

record 'a tensor =
  shape :: "nat list"
  elems :: "'a list"

definition numel :: "'a tensor \<Rightarrow> nat" where
  "numel t = prod_list (shape t)"

definition wf_tensor :: "'a tensor \<Rightarrow> bool" where
  "wf_tensor t = (length (elems t) = prod_list (shape t))"

text \<open>Elementwise unary operations (\<open>torch.log\<close>, \<open>torch.sigmoid\<close>, unary minus, a scalar factor).\<close>

definition tmap :: "('a \<Rightarrow> 'b) \<Rightarrow> 'a tensor \<Rightarrow> 'b tensor" where
  "tmap f t = \<lparr>shape = shape t, elems = map f (elems t)\<rparr>"

text \<open>
  Broadcasting of two shapes, both given last dimension first: dimensions are aligned from
  the last one, and two aligned sizes must be equal unless one of them is 1.
\<close>

fun broadcast_shapes :: "nat list \<Rightarrow> nat list \<Rightarrow> nat list option" where
  "broadcast_shapes [] bs = Some bs"
| "broadcast_shapes (a # as) [] = Some (a # as)"
| "broadcast_shapes (a # as) (b # bs) =
     (if a = b \<or> b = 1 then map_option ((#) a) (broadcast_shapes as bs)
      else if a = 1 then map_option ((#) b) (broadcast_shapes as bs)
      else None)"

text \<open>
  The position in an operand (shape \<open>is\<close>, last dimension first) of the element that
  broadcasting puts at position \<open>k\<close> of the result (shape \<open>os\<close>, last dimension first).
\<close>

fun bcast_index :: "nat list \<Rightarrow> nat list \<Rightarrow> nat \<Rightarrow> nat" where
  "bcast_index (i # is) (out # os) k =
     (if i = 1 then 0 else k mod out) + i * bcast_index is os (k div out)"
| "bcast_index _ _ k = 0"

text \<open>Elementwise binary operations with broadcasting (\<open>torch.mul\<close>, \<open>+\<close>, \<open>-\<close>).\<close>

definition broadcast2 :: "('a \<Rightarrow> 'b \<Rightarrow> 'c) \<Rightarrow> 'a tensor \<Rightarrow> 'b tensor \<Rightarrow> error + 'c tensor" where
  "broadcast2 f a b =
     (case broadcast_shapes (rev (shape a)) (rev (shape b)) of
        None \<Rightarrow> Inl RuntimeError
      | Some rs \<Rightarrow> Inr \<lparr>shape = rev rs,
           elems = map (\<lambda>k. f (elems a ! bcast_index (rev (shape a)) rs k)
                              (elems b ! bcast_index (rev (shape b)) rs k))
                       [0..<prod_list rs]\<rparr>)"

text \<open>
  Reduction of dimension \<open>k\<close> by \<open>g\<close>: \<open>t.sum(dim=k)\<close>, \<open>torch.mean(t, dim=k)\<close> and
  \<open>torch.norm(t, dim=k, p=2)\<close>. A dimension the tensor does not have raises IndexError.
  The mean of no element is NaN in PyTorch; it does not arise below, where the reduced
  dimension is never empty.
\<close>

definition reduce_dim :: "('a list \<Rightarrow> 'b) \<Rightarrow> nat \<Rightarrow> 'a tensor \<Rightarrow> error + 'b tensor" where
  "reduce_dim g k t =
     (if k < length (shape t) then
        (let outer = prod_list (take k (shape t));
             n = shape t ! k;
             inner = prod_list (drop (Suc k) (shape t))
         in Inr \<lparr>shape = take k (shape t) @ drop (Suc k) (shape t),
                 elems = concat (map (\<lambda>out. map (\<lambda>p.
                            g (map (\<lambda>j. elems t ! ((out * n + j) * inner + p)) [0..<n]))
                          [0..<inner]) [0..<outer])\<rparr>)
      else Inl IndexError)"

definition sum_dim :: "nat \<Rightarrow> real tensor \<Rightarrow> error + real tensor" where
  "sum_dim = reduce_dim sum_list"

definition mean_dim :: "nat \<Rightarrow> real tensor \<Rightarrow> error + real tensor" where
  "mean_dim = reduce_dim (\<lambda>xs. sum_list xs / real (length xs))"

definition norm2_dim :: "nat \<Rightarrow> real tensor \<Rightarrow> error + real tensor" where
  "norm2_dim = reduce_dim (\<lambda>xs. sqrt (sum_list (map (\<lambda>x. x\<^sup>2) xs)))"

text \<open>
  \<open>torch.stack(ts, dim=1)\<close>: the list must not be empty, the tensors must have one shape,
  and they must have a first dimension.
\<close>

definition stack1 :: "'a tensor list \<Rightarrow> error + 'a tensor" where
  "stack1 ts =
     (case ts of
        [] \<Rightarrow> Inl RuntimeError
      | t # _ \<Rightarrow>
          if list_all (\<lambda>u. shape u = shape t) ts then
            (case shape t of
               [] \<Rightarrow> Inl IndexError
             | a # rest \<Rightarrow>
                 let inner = prod_list rest
                 in Inr \<lparr>shape = a # length ts # rest,
                         elems = concat (map (\<lambda>i. concat (map (\<lambda>u.
                                    take inner (drop (i * inner) (elems u))) ts)) [0..<a])\<rparr>)
          else Inl RuntimeError)"

text \<open>\<open>t.squeeze()\<close> removes every dimension of size 1.\<close>

definition squeeze :: "'a tensor \<Rightarrow> 'a tensor" where
  "squeeze t = t\<lparr>shape := filter (\<lambda>n. n \<noteq> 1) (shape t)\<rparr>"

text \<open>\<open>t.unsqueeze(1)\<close> and \<open>t.shape[0]\<close> need a tensor of at least one dimension.\<close>

definition unsqueeze1 :: "'a tensor \<Rightarrow> error + 'a tensor" where
  "unsqueeze1 t =
     (case shape t of
        [] \<Rightarrow> Inl IndexError
      | a # rest \<Rightarrow> Inr (t\<lparr>shape := a # 1 # rest\<rparr>))"

definition shape0 :: "'a tensor \<Rightarrow> error + nat" where
  "shape0 t = (case shape t of [] \<Rightarrow> Inl IndexError | a # _ \<Rightarrow> Inr a)"

text \<open>
  \<open>table[idx]\<close> for an integer tensor \<open>idx\<close>, which is also the lookup of \<open>nn.Embedding\<close>:
  every index selects a slice of the first dimension; an index out of range raises.
\<close>

definition index_rows :: "'a tensor \<Rightarrow> nat tensor \<Rightarrow> error + 'a tensor" where
  "index_rows table idx =
     (case shape table of
        [] \<Rightarrow> Inl IndexError
      | n # rest \<Rightarrow>
          if list_all (\<lambda>i. i < n) (elems idx) then
            (let w = prod_list rest
             in Inr \<lparr>shape = shape idx @ rest,
                     elems = concat (map (\<lambda>i. take w (drop (i * w) (elems table))) (elems idx))\<rparr>)
          else Inl IndexError)"

text \<open>
  \<open>t.view(pre, -1, post)\<close> and \<open>torch.reshape(t, (pre, -1, post))\<close>: the size of the
  dimension written \<open>-1\<close> is inferred, which fails when the known sizes multiply to 0 or do
  not divide the number of elements.
\<close>

definition view_infer :: "nat list \<Rightarrow> nat list \<Rightarrow> 'a tensor \<Rightarrow> error + 'a tensor" where
  "view_infer pre post t =
     (let known = prod_list pre * prod_list post
      in if 0 < known \<and> known dvd numel t
         then Inr (t\<lparr>shape := pre @ [numel t div known] @ post\<rparr>)
         else Inl RuntimeError)"

text \<open>\<open>t[:n]\<close>, \<open>torch.cat([a, b], dim=0)\<close> and the first part of \<open>torch.split(t, [n, m])\<close>.\<close>

definition slice_rows :: "nat \<Rightarrow> 'a tensor \<Rightarrow> error + 'a tensor" where
  "slice_rows n t =
     (case shape t of
        [] \<Rightarrow> Inl IndexError
      | a # rest \<Rightarrow> Inr \<lparr>shape = min n a # rest,
                          elems = take (min n a * prod_list rest) (elems t)\<rparr>)"

definition cat0 :: "'a tensor \<Rightarrow> 'a tensor \<Rightarrow> error + 'a tensor" where
  "cat0 s t =
     (case (shape s, shape t) of
        (a # rest, b # rest') \<Rightarrow>
          if rest = rest' then Inr \<lparr>shape = (a + b) # rest, elems = elems s @ elems t\<rparr>
          else Inl RuntimeError
      | _ \<Rightarrow> Inl RuntimeError)"

definition split_first :: "nat \<Rightarrow> nat \<Rightarrow> 'a tensor \<Rightarrow> error + 'a tensor" where
  "split_first n m t =
     (case shape t of
        [] \<Rightarrow> Inl RuntimeError
      | a # rest \<Rightarrow>
          if n + m = a then Inr \<lparr>shape = n # rest, elems = take (n * prod_list rest) (elems t)\<rparr>
          else Inl RuntimeError)"

text \<open>\<open>torch.matmul(a, b.transpose(0, 1))\<close> for two matrices, and \<open>t.view(-1)\<close>.\<close>

definition matmul_transposed :: "real tensor \<Rightarrow> real tensor \<Rightarrow> error + real tensor" where
  "matmul_transposed a b =
     (case (shape a, shape b) of
        ([n, d], [m, d']) \<Rightarrow>
          if d = d' then
            Inr \<lparr>shape = [n, m],
                 elems = concat (map (\<lambda>i. map (\<lambda>j.
                            (\<Sum>k\<leftarrow>[0..<d]. elems a ! (i * d + k) * elems b ! (j * d + k)))
                          [0..<m]) [0..<n])\<rparr>
          else Inl RuntimeError
      | _ \<Rightarrow> Inl RuntimeError)"

definition view_flat :: "'a tensor \<Rightarrow> 'a tensor" where
  "view_flat t = t\<lparr>shape := [numel t]\<rparr>"

text \<open>\<open>w.data[0].fill_(0)\<close>: the first slice of the first dimension becomes zero.\<close>

definition fill_row0 :: "real tensor \<Rightarrow> error + real tensor" where
  "fill_row0 w =
     (case shape w of
        [] \<Rightarrow> Inl IndexError
      | n # rest \<Rightarrow>
          if 0 < n then
            Inr (w\<lparr>elems := replicate (prod_list rest) 0 @ drop (prod_list rest) (elems w)\<rparr>)
          else Inl IndexError)"

subsection \<open>Python dictionaries and sparse matrices\<close>

text \<open>
  A dictionary keeps its keys in insertion order; storing under a key that is present
  replaces the value in place. \<open>dict(pairs)\<close> and \<open>d.update(e)\<close> store the pairs in order.
\<close>

definition dict_set :: "('k \<times> 'v) list \<Rightarrow> 'k \<times> 'v \<Rightarrow> ('k \<times> 'v) list" where
  "dict_set d kv =
     (if fst kv \<in> fst ` set d
      then map (\<lambda>e. if fst e = fst kv then kv else e) d
      else d @ [kv])"

definition dict_update :: "('k \<times> 'v) list \<Rightarrow> ('k \<times> 'v) list \<Rightarrow> ('k \<times> 'v) list" where
  "dict_update d kvs = foldl dict_set d kvs"

definition dict_of :: "('k \<times> 'v) list \<Rightarrow> ('k \<times> 'v) list" where
  "dict_of kvs = dict_update [] kvs"

text \<open>
  A sparse matrix (SciPy's dok, csr and coo matrices, and the sparse tensor of PyTorch made
  from one) is its shape and its stored entries, each a position and a value.
\<close>

record sparse =
  sp_shape :: "nat \<times> nat"
  sp_items :: "((nat \<times> nat) \<times> real) list"

definition in_range :: "sparse \<Rightarrow> bool" where
  "in_range a = list_all (\<lambda>e. fst (fst e) < fst (sp_shape a) \<and> snd (fst e) < snd (sp_shape a))
                         (sp_items a)"

text \<open>The interaction matrix, a coo matrix: parallel arrays of rows, columns and values.\<close>

record coo =
  coo_shape :: "nat \<times> nat"
  coo_row :: "nat list"
  coo_col :: "nat list"
  coo_data :: "real list"

definition coo_nnz :: "coo \<Rightarrow> nat" where
  "coo_nnz g = length (coo_data g)"

definition coo_transpose :: "coo \<Rightarrow> coo" where
  "coo_transpose g = \<lparr>coo_shape = (snd (coo_shape g), fst (coo_shape g)),
                       coo_row = coo_col g, coo_col = coo_row g, coo_data = coo_data g\<rparr>"

text \<open>The stored entries of row \<open>i\<close>, and the sum of that row.\<close>

definition row_items :: "sparse \<Rightarrow> nat \<Rightarrow> ((nat \<times> nat) \<times> real) list" where
  "row_items a i = filter (\<lambda>e. fst (fst e) = i) (sp_items a)"

definition row_sum :: "sparse \<Rightarrow> nat \<Rightarrow> real" where
  "row_sum a i = (\<Sum>e\<leftarrow>row_items a i. snd e)"

text \<open>
  \<open>norm_adj\<close>: the degree of a row is the number of its positive entries; every entry is
  scaled by the degrees of its row and of its column, each plus \<open>1e-7\<close> and raised to
  \<open>-0.5\<close>. Building the comparison \<open>adj > 0\<close> converts the matrix, which checks the
  positions; the product with the diagonal matrix needs a square matrix.
\<close>

definition degree :: "sparse \<Rightarrow> nat \<Rightarrow> nat" where
  "degree adj i = length (filter (\<lambda>e. 0 < snd e) (row_items adj i))"

definition norm_adj :: "sparse \<Rightarrow> error + sparse" where
  "norm_adj adj =
     (if in_range adj \<and> fst (sp_shape adj) = snd (sp_shape adj) then
        (let sum_arr = map (degree adj) [0..<fst (sp_shape adj)];
             diag = map (\<lambda>s. real s + 1 / 10 ^ 7) sum_arr;
             diag = map (\<lambda>x. x powr (- (1 / 2))) diag
         in Inr \<lparr>sp_shape = sp_shape adj,
                 sp_items = map (\<lambda>e. (fst e, diag ! fst (fst e) * snd e * diag ! snd (fst e)))
                                (sp_items adj)\<rparr>)
      else Inl ValueError)"

definition convert_to_tensor :: "sparse \<Rightarrow> error + sparse" where
  "convert_to_tensor laplace_adj = (if in_range laplace_adj then Inr laplace_adj else Inl ValueError)"

text \<open>
  \<open>torch.sparse.mm(adj, e)\<close>: entry \<open>(i, k)\<close> of the product sums, over the stored entries
  \<open>((i, c), v)\<close> of row \<open>i\<close>, the value \<open>v\<close> times entry \<open>(c, k)\<close> of \<open>e\<close>.
\<close>

definition sparse_mm :: "sparse \<Rightarrow> real tensor \<Rightarrow> error + real tensor" where
  "sparse_mm adj e =
     (case shape e of
        [m, d] \<Rightarrow>
          if snd (sp_shape adj) = m then
            Inr \<lparr>shape = [fst (sp_shape adj), d],
                 elems = concat (map (\<lambda>i. map (\<lambda>k.
                            (\<Sum>x\<leftarrow>row_items adj i. snd x * elems e ! (snd (fst x) * d + k)))
                          [0..<d]) [0..<fst (sp_shape adj)])\<rparr>
          else Inl RuntimeError
      | _ \<Rightarrow> Inl RuntimeError)"

subsection \<open>The model\<close>

text \<open>
  The configuration and the sizes of the dataset, then the attributes that \<open>__init__\<close>
  computes. The two loss modules, RecBole's \<open>BPRLoss\<close> and PyTorch's \<open>L1Loss\<close>, are not code
  of this repository: they are attributes of the model, any two functions from a pair of
  score tensors to a number (a tensor of no dimension).
\<close>

record config =
  embedding_size :: nat
  n_kg_layers :: nat
  n_ui_layers :: nat
  cf_pos_flag :: bool
  cf_neg_flag :: bool
  max_neighbor_size :: nat
  cf_loss_function :: string
  cf_pos_weight :: real
  cf_neg_weight :: real
  ib_beta :: real
  n_users :: nat
  n_items :: nat
  n_entities :: nat

record model = config +
  ui_adj :: sparse
  kg_adj :: sparse
  user_embedding :: "real tensor"
  entity_embedding :: "real tensor"
  bpr_loss :: "real tensor \<Rightarrow> real tensor \<Rightarrow> real"
  mae_loss :: "real tensor \<Rightarrow> real tensor \<Rightarrow> real"
  restore_user_e :: "real tensor option"
  restore_item_e :: "real tensor option"

text \<open>A batch: users, positive items, negative items, and the two optional neighbor tables.\<close>

record interaction =
  users :: "nat tensor"
  pos_items :: "nat tensor"
  neg_items :: "nat tensor"
  cf_pos_kg_neighbors :: "nat tensor option"
  cf_neg_kg_neighbors :: "nat tensor option"

definition lookup :: "'a option \<Rightarrow> error + 'a" where
  "lookup field = (case field of None \<Rightarrow> Inl KeyError | Some v \<Rightarrow> Inr v)"

subsection \<open>Adjacency construction\<close>

definition get_ui_adj :: "'z config_scheme \<Rightarrow> coo \<Rightarrow> error + sparse" where
  "get_ui_adj self ui_graph =
     (let ui_graph_t = coo_transpose ui_graph;
          adj = \<lparr>sp_shape = (n_users self + n_items self, n_users self + n_items self),
                 sp_items = []\<rparr>;
          data_dict = dict_of (zip (zip (coo_row ui_graph) (map (\<lambda>c. c + n_users self) (coo_col ui_graph)))
                                   (replicate (coo_nnz ui_graph) 1));
          data_dict = dict_update data_dict
                        (dict_of (zip (zip (map (\<lambda>r. r + n_users self) (coo_row ui_graph_t)) (coo_col ui_graph_t))
                                      (replicate (coo_nnz ui_graph_t) 1)));
          adj = adj\<lparr>sp_items := dict_update (sp_items adj) data_dict\<rparr>
      in and_then (norm_adj adj) convert_to_tensor)"

text \<open>Row \<open>i\<close> of a table of neighbors, a tensor of two dimensions.\<close>

definition table_row :: "'a tensor \<Rightarrow> nat \<Rightarrow> 'a list" where
  "table_row t i = take (shape t ! 1) (drop (i * (shape t ! 1)) (elems t))"

definition get_kg_adj :: "'z config_scheme \<Rightarrow> nat tensor \<Rightarrow> error + sparse" where
  "get_kg_adj self kg_neighbors =
     (case shape kg_neighbors of
        [n, w] \<Rightarrow>
          if n_entities self \<le> n then
            (let adj = \<lparr>sp_shape = (n_entities self, n_entities self), sp_items = []\<rparr>;
                 data = concat (map (\<lambda>i. map (\<lambda>c. (i, c))
                           (filter (\<lambda>c. c \<noteq> 0) (table_row kg_neighbors i))) [0..<n_entities self])
             in if max_neighbor_size self = 0 then Inl ZeroDivisionError
                else
                  (let data_dict = dict_of (zip data
                         (replicate (length data) (1 / real (max_neighbor_size self))));
                       adj = adj\<lparr>sp_items := dict_update (sp_items adj) data_dict\<rparr>
                   in convert_to_tensor adj))
          else Inl IndexError
      | _ \<Rightarrow> Inl TypeError)"

subsection \<open>Propagation\<close>

definition through_graph :: "sparse \<Rightarrow> real tensor \<Rightarrow> nat \<Rightarrow> error + real tensor" where
  "through_graph adj all_embeddings n_layers =
     and_then (for_each [0..<n_layers]
        (\<lambda>layer_idx (all_embeddings, all_embeddings_list).
           and_then (sparse_mm adj all_embeddings) (\<lambda>all_embeddings.
           Inr (all_embeddings, all_embeddings_list @ [all_embeddings])))
        (all_embeddings, [all_embeddings]))
     (\<lambda>(all_embeddings, all_embeddings_list).
        and_then (stack1 all_embeddings_list) (mean_dim 1))"

definition forward :: "'z model_scheme \<Rightarrow> error + (real tensor \<times> real tensor)" where
  "forward self =
     and_then (through_graph (kg_adj self) (entity_embedding self) (n_kg_layers self))
       (\<lambda>entity_embeddings.
     and_then (slice_rows (n_items self) entity_embeddings) (\<lambda>item_embeddings.
     and_then (cat0 (user_embedding self) item_embeddings) (\<lambda>ui_embeddings.
     and_then (through_graph (ui_adj self) ui_embeddings (n_ui_layers self)) (\<lambda>ui_embeddings.
     and_then (split_first (n_users self) (n_items self) ui_embeddings) (\<lambda>user_embeddings.
     Inr (user_embeddings, entity_embeddings))))))"

subsection \<open>Neighbor expansion and counterfactual item embeddings\<close>

definition get_batch_neighbors :: "'z config_scheme \<Rightarrow> nat tensor \<Rightarrow> nat tensor \<Rightarrow> error + nat tensor list" where
  "get_batch_neighbors self items kg_neighbors =
     and_then (shape0 items) (\<lambda>batch_size.
     and_then (unsqueeze1 items) (\<lambda>first.
     for_each [0..<n_kg_layers self]
       (\<lambda>i entities.
          and_then (nth_r entities i) (\<lambda>e.
          and_then (index_rows kg_neighbors e) (\<lambda>found.
          and_then (view_infer [batch_size] [] found) (\<lambda>flat.
          Inr (entities @ [flat])))))
       [first]))"

definition get_cf_i_embeddings :: "'z model_scheme \<Rightarrow> nat tensor \<Rightarrow> nat tensor \<Rightarrow> error + real tensor" where
  "get_cf_i_embeddings self items kg_neighbors =
     and_then (shape0 items) (\<lambda>batch_size.
     and_then (get_batch_neighbors self items kg_neighbors) (\<lambda>entities.
     and_then (map_r (index_rows (entity_embedding self)) entities) (\<lambda>entity_vectors.
     and_then (nth_r entity_vectors 0) (\<lambda>first.
     and_then (for_each [0..<n_kg_layers self]
        (\<lambda>i (entity_vectors, item_embeddings_list).
           and_then (map_r (\<lambda>hop.
              and_then (nth_r entity_vectors (hop + 1)) (\<lambda>v.
              and_then (view_infer [batch_size] [max_neighbor_size self, embedding_size self] v)
                (\<lambda>neighbor_vectors. mean_dim 2 neighbor_vectors)))
              [0..<n_kg_layers self - i]) (\<lambda>entity_vectors_next_iter.
           and_then (nth_r entity_vectors_next_iter 0) (\<lambda>head.
           Inr (entity_vectors_next_iter, item_embeddings_list @ [squeeze head]))))
        (entity_vectors, [squeeze first]))
     (\<lambda>(entity_vectors, item_embeddings_list).
        and_then (stack1 item_embeddings_list) (mean_dim 1))))))"

subsection \<open>Scores, losses and prediction\<close>

text \<open>\<open>torch.mul(a, b).sum(dim=1)\<close>.\<close>

definition mul_sum :: "real tensor \<Rightarrow> real tensor \<Rightarrow> error + real tensor" where
  "mul_sum a b = and_then (broadcast2 (*) a b) (sum_dim 1)"

definition get_bpr_loss :: "'z model_scheme \<Rightarrow> real tensor \<Rightarrow> real tensor \<Rightarrow> real" where
  "get_bpr_loss self pos_scores neg_scores = bpr_loss self pos_scores neg_scores"

text \<open>
  \<open>calculate_loss\<close> returns the model, whose cache of embeddings it clears, and the list of
  losses. An embeddings argument that is \<open>None\<close> is \<open>None\<close> here.
\<close>

definition calculate_loss ::
  "'z model_scheme \<Rightarrow> interaction \<Rightarrow> real tensor option \<Rightarrow> real tensor option
     \<Rightarrow> error + ('z model_scheme \<times> real list)" where
  "calculate_loss self interaction user_all_embeddings entity_all_embeddings =
     (let self = (if restore_user_e self \<noteq> None \<or> restore_item_e self \<noteq> None
                  then self\<lparr>restore_user_e := None, restore_item_e := None\<rparr> else self);
          users = users interaction;
          pos_items = pos_items interaction;
          neg_items = neg_items interaction
      in
      and_then (case user_all_embeddings of
                  None \<Rightarrow> and_then (forward self) (\<lambda>(u, e). Inr (u, Some e))
                | Some u \<Rightarrow> Inr (u, entity_all_embeddings))
        (\<lambda>(user_all_embeddings, entity_all_embeddings).
      and_then (index_rows user_all_embeddings users) (\<lambda>u_embeddings.
      and_then (case entity_all_embeddings of None \<Rightarrow> Inl TypeError | Some e \<Rightarrow> Inr e)
        (\<lambda>entity_all_embeddings.
      and_then (index_rows entity_all_embeddings pos_items) (\<lambda>posi_embeddings.
      and_then (index_rows entity_all_embeddings neg_items) (\<lambda>negi_embeddings.
      and_then (mul_sum u_embeddings posi_embeddings) (\<lambda>pos_scores.
      and_then (mul_sum u_embeddings negi_embeddings) (\<lambda>neg_scores.
      let bpr_loss = get_bpr_loss self pos_scores neg_scores in
      and_then
        (if cf_pos_flag self then
           and_then (lookup (cf_pos_kg_neighbors interaction)) (\<lambda>kg_neighbors.
           and_then (get_cf_i_embeddings self pos_items kg_neighbors) (\<lambda>cf_posi_embeddings.
           and_then (mul_sum u_embeddings cf_posi_embeddings) (\<lambda>cf_pos_scores.
           let cf_pos_loss = (if cf_loss_function self = ''mae''
                              then mae_loss self pos_scores cf_pos_scores
                              else get_bpr_loss self cf_pos_scores neg_scores)
           in Inr ([bpr_loss] @ [cf_pos_weight self * cf_pos_loss]))))
         else Inr [bpr_loss]) (\<lambda>losses.
      and_then
        (if cf_neg_flag self then
           and_then (lookup (cf_neg_kg_neighbors interaction)) (\<lambda>kg_neighbors.
           and_then (get_cf_i_embeddings self neg_items kg_neighbors) (\<lambda>cf_negi_embeddings.
           and_then (mul_sum u_embeddings cf_negi_embeddings) (\<lambda>cf_neg_scores.
           let cf_neg_loss = (if cf_loss_function self = ''mae''
                              then mae_loss self neg_scores cf_neg_scores
                              else get_bpr_loss self pos_scores cf_neg_scores)
           in Inr (losses @ [cf_neg_weight self * cf_neg_loss]))))
         else Inr losses) (\<lambda>losses.
      Inr (self, losses)))))))))))"

text \<open>\<open>full_sort_predict\<close> returns the model, whose cache it may fill, and the scores.\<close>

definition full_sort_predict ::
  "'z model_scheme \<Rightarrow> interaction \<Rightarrow> error + ('z model_scheme \<times> real tensor)" where
  "full_sort_predict self interaction =
     and_then
       (case (restore_user_e self, restore_item_e self) of
          (Some u, Some i) \<Rightarrow> Inr (self, u, i)
        | _ \<Rightarrow>
          and_then (forward self) (\<lambda>(restore_user_e', restore_entity_e).
          and_then (slice_rows (n_items self) restore_entity_e) (\<lambda>restore_item_e'.
          Inr (self\<lparr>restore_user_e := Some restore_user_e',
                     restore_item_e := Some restore_item_e'\<rparr>,
               restore_user_e', restore_item_e'))))
       (\<lambda>(self, restore_user_e, restore_item_e).
     and_then (index_rows restore_user_e (users interaction)) (\<lambda>u_embeddings.
     and_then (matmul_transposed u_embeddings restore_item_e) (\<lambda>scores.
     Inr (self, view_flat scores))))"

subsection \<open>Rewards\<close>

definition sigmoid :: "real \<Rightarrow> real" where
  "sigmoid x = 1 / (1 + exp (- x))"

definition get_reward1 ::
  "'z config_scheme \<Rightarrow> real tensor \<Rightarrow> real tensor \<Rightarrow> real tensor \<Rightarrow> error + real tensor" where
  "get_reward1 self scores1 scores2 embeddings =
     (let gamma = 1 / 10 ^ 10 in
      and_then (broadcast2 (-) scores1 scores2) (\<lambda>diff.
      let part1 = tmap (\<lambda>x. ln (gamma + sigmoid x)) diff in
      and_then (norm2_dim 1 embeddings) (\<lambda>nrm.
      let part2 = tmap uminus nrm in
      broadcast2 (+) part1 (tmap ((*) (ib_beta self)) part2))))"

definition get_reward2 :: "real tensor \<Rightarrow> real tensor \<Rightarrow> error + real tensor" where
  "get_reward2 scores1 scores2 =
     (let gamma = 1 / 10 ^ 10 in
      and_then (broadcast2 (-) scores1 scores2) (\<lambda>diff.
      let reward = tmap (\<lambda>x. ln (gamma + sigmoid x)) diff in
      Inr reward))"

definition generate_pos_reward ::
  "'z model_scheme \<Rightarrow> interaction \<Rightarrow> nat tensor \<Rightarrow> nat tensor \<Rightarrow> real tensor \<Rightarrow> real tensor
     \<Rightarrow> error + (real tensor \<times> real tensor)" where
  "generate_pos_reward self interaction kg_neighbors1 kg_neighbors2
       user_all_embeddings entity_all_embeddings =
     (let users = users interaction;
          pos_items = pos_items interaction;
          neg_items = neg_items interaction
      in
      and_then (index_rows user_all_embeddings users) (\<lambda>u_embeddings.
      and_then (index_rows entity_all_embeddings pos_items) (\<lambda>posi_embeddings.
      and_then (index_rows entity_all_embeddings neg_items) (\<lambda>negi_embeddings.
      and_then (mul_sum u_embeddings posi_embeddings) (\<lambda>pos_scores.
      and_then (mul_sum u_embeddings negi_embeddings) (\<lambda>neg_scores.
      and_then (get_cf_i_embeddings self pos_items kg_neighbors1) (\<lambda>cf_posi_embeddings1.
      and_then (mul_sum u_embeddings cf_posi_embeddings1) (\<lambda>cf_pos_scores1.
      and_then (get_reward1 self cf_pos_scores1 neg_scores cf_posi_embeddings1) (\<lambda>reward1.
      and_then (get_cf_i_embeddings self pos_items kg_neighbors2) (\<lambda>cf_posi_embeddings2.
      and_then (mul_sum u_embeddings cf_posi_embeddings2) (\<lambda>cf_pos_scores2.
      and_then (get_reward2 pos_scores cf_pos_scores2) (\<lambda>reward2.
      Inr (reward1, reward2)))))))))))))"

definition generate_neg_reward ::
  "'z model_scheme \<Rightarrow> interaction \<Rightarrow> nat tensor \<Rightarrow> nat tensor \<Rightarrow> real tensor \<Rightarrow> real tensor
     \<Rightarrow> error + (real tensor \<times> real tensor)" where
  "generate_neg_reward self interaction kg_neighbors1 kg_neighbors2
       user_all_embeddings entity_all_embeddings =
     (let users = users interaction;
          pos_items = pos_items interaction;
          neg_items = neg_items interaction
      in
      and_then (index_rows user_all_embeddings users) (\<lambda>u_embeddings.
      and_then (index_rows entity_all_embeddings pos_items) (\<lambda>posi_embeddings.
      and_then (index_rows entity_all_embeddings neg_items) (\<lambda>negi_embeddings.
      and_then (mul_sum u_embeddings posi_embeddings) (\<lambda>pos_scores.
      and_then (mul_sum u_embeddings negi_embeddings) (\<lambda>neg_scores.
      and_then (get_cf_i_embeddings self neg_items kg_neighbors1) (\<lambda>cf_negi_embeddings1.
      and_then (mul_sum u_embeddings cf_negi_embeddings1) (\<lambda>cf_neg_scores1.
      and_then (get_reward1 self pos_scores cf_neg_scores1 cf_negi_embeddings1) (\<lambda>reward1.
      and_then (get_cf_i_embeddings self neg_items kg_neighbors2) (\<lambda>cf_negi_embeddings2.
      and_then (mul_sum u_embeddings cf_negi_embeddings2) (\<lambda>cf_neg_scores2.
      and_then (get_reward2 cf_neg_scores2 neg_scores) (\<lambda>reward2.
      Inr (reward1, reward2)))))))))))))"

subsection \<open>Initialization\<close>

text \<open>
  \<open>__init__\<close> builds the two adjacency matrices, creates the two embedding tables, lets
  \<open>xavier_normal_initialization\<close> fill them with random numbers, and then zeroes row 0 of
  each. The random numbers are the arguments \<open>user_init\<close> and \<open>entity_init\<close>.
\<close>

definition init ::
  "config \<Rightarrow> coo \<Rightarrow> nat tensor
     \<Rightarrow> (real tensor \<Rightarrow> real tensor \<Rightarrow> real)
     \<Rightarrow> (real tensor \<Rightarrow> real tensor \<Rightarrow> real)
     \<Rightarrow> real list \<Rightarrow> real list \<Rightarrow> error + model" where
  "init cfg ui_graph raw_kg_neighbors bpr mae user_init entity_init =
     and_then (get_ui_adj cfg ui_graph) (\<lambda>ui.
     and_then (get_kg_adj cfg raw_kg_neighbors) (\<lambda>kg.
     and_then (fill_row0 \<lparr>shape = [n_entities cfg, embedding_size cfg], elems = entity_init\<rparr>)
       (\<lambda>entity_w.
     and_then (fill_row0 \<lparr>shape = [n_users cfg, embedding_size cfg], elems = user_init\<rparr>)
       (\<lambda>user_w.
     Inr (config.extend cfg
            (model.fields ui kg user_w entity_w bpr mae None None))))))"

subsection \<open>Well-shaped models\<close>

text \<open>
  What \<open>__init__\<close> sets up and nothing changes afterwards: the two embedding tables have one
  row per user and per entity and \<open>embedding_size\<close> columns, the two adjacency matrices are
  square over the entities and over the users followed by the items, and the items are among
  the entities.
\<close>

definition well_shaped :: "'z model_scheme \<Rightarrow> bool" where
  "well_shaped self \<longleftrightarrow>
     shape (user_embedding self) = [n_users self, embedding_size self]
     \<and> wf_tensor (user_embedding self)
     \<and> shape (entity_embedding self) = [n_entities self, embedding_size self]
     \<and> wf_tensor (entity_embedding self)
     \<and> sp_shape (kg_adj self) = (n_entities self, n_entities self)
     \<and> sp_shape (ui_adj self) = (n_users self + n_items self, n_users self + n_items self)
     \<and> n_items self \<le> n_entities self"

subsection \<open>Loop invariants\<close>

text \<open>
  After \<open>i\<close> rounds of the loop of \<open>get_batch_neighbors\<close> over a batch of \<open>b\<close> items and a
  table of \<open>m\<close> slots: \<open>i + 1\<close> levels, the first the batch itself, level \<open>k\<close> of shape
  \<open>b\<close> by \<open>m ^ k\<close>, every level the rows that the table holds for the level before.
\<close>

definition hops_ok :: "nat tensor \<Rightarrow> nat \<Rightarrow> nat \<Rightarrow> nat tensor \<Rightarrow> nat \<Rightarrow> nat tensor list \<Rightarrow> bool" where
  "hops_ok kg b m items i ents \<longleftrightarrow>
     length ents = Suc i \<and> ents ! 0 = items\<lparr>shape := [b, 1]\<rparr>
     \<and> (\<forall>k\<le>i. shape (ents ! k) = [b, m ^ k] \<and> set (elems (ents ! k)) \<subseteq> set (elems items) \<union> set (elems kg))
     \<and> (\<forall>k<i. elems (ents ! Suc k) = concat (map (table_row kg) (elems (ents ! k))))"

text \<open>
  After \<open>i\<close> rounds of the outer loop of \<open>get_cf_i_embeddings\<close>: the vectors of the
  \<open>l + 1 - i\<close> hops that are left, hop \<open>k\<close> of shape \<open>b\<close> by \<open>m ^ k\<close> by \<open>d\<close>, and the
  list of squeezed item embeddings collected so far.
\<close>

definition hop_vectors_ok ::
  "nat \<Rightarrow> nat \<Rightarrow> nat \<Rightarrow> nat \<Rightarrow> nat \<Rightarrow> real tensor list \<times> real tensor list \<Rightarrow> bool" where
  "hop_vectors_ok b m d l i s \<longleftrightarrow>
     length (fst s) = Suc l - i
     \<and> (\<forall>k<length (fst s). shape (fst s ! k) = [b, m ^ k, d])
     \<and> snd s \<noteq> []
     \<and> (\<forall>t\<in>set (snd s). shape t = filter (\<lambda>n. n \<noteq> 1) [b, 1, d])"

text \<open>
  After \<open>i\<close> rounds of the loop of \<open>through_graph\<close> over \<open>n\<close> by \<open>d\<close> embeddings: \<open>i + 1\<close>
  matrices, the first the input, each next one the product of the adjacency with the one
  before, and the current embeddings the last of them.
\<close>

definition layers_ok :: "sparse \<Rightarrow> real tensor \<Rightarrow> nat \<Rightarrow> nat \<Rightarrow> nat \<Rightarrow> real tensor \<times> real tensor list \<Rightarrow> bool" where
  "layers_ok adj e n d i s \<longleftrightarrow>
     length (snd s) = Suc i \<and> snd s ! 0 = e \<and> fst s = snd s ! i
     \<and> (\<forall>l\<le>i. shape (snd s ! l) = [n, d] \<and> length (elems (snd s ! l)) = n * d)
     \<and> (\<forall>l<i. sparse_mm adj (snd s ! l) = Inr (snd s ! Suc l))"

subsection \<open>A small instance\<close>

text \<open>Two users, three items among four entities, two neighbor slots, two hops.\<close>

definition toy_config :: config where
  "toy_config = \<lparr>embedding_size = 2, n_kg_layers = 2, n_ui_layers = 1,
     cf_pos_flag = True, cf_neg_flag = True, max_neighbor_size = 2,
     cf_loss_function = ''mae'', cf_pos_weight = 1 / 2, cf_neg_weight = 1, ib_beta = 1 / 2,
     n_users = 2, n_items = 3, n_entities = 4\<rparr>"

definition toy_kg :: "nat tensor" where
  "toy_kg = \<lparr>shape = [4, 2], elems = [0, 0, 2, 3, 3, 3, 1, 0]\<rparr>"

definition toy_items :: "nat tensor" where
  "toy_items = \<lparr>shape = [2], elems = [1, 2]\<rparr>"

text \<open>
  RecBole's \<open>BPRLoss\<close>, \<open>-log(gamma + sigmoid(pos - neg)).mean()\<close> with \<open>gamma = 1e-10\<close>, and
  PyTorch's \<open>L1Loss\<close>, the mean of \<open>|a - b|\<close>, as their libraries document them, on score
  vectors of one length. They are the two loss attributes of the small instance.
\<close>

definition bpr_loss_fn :: "real tensor \<Rightarrow> real tensor \<Rightarrow> real" where
  "bpr_loss_fn pos_score neg_score =
     - (sum_list (map2 (\<lambda>p q. ln (1 / 10 ^ 10 + sigmoid (p - q))) (elems pos_score) (elems neg_score))
        / real (length (elems pos_score)))"

definition l1_loss_fn :: "real tensor \<Rightarrow> real tensor \<Rightarrow> real" where
  "l1_loss_fn a b =
     sum_list (map2 (\<lambda>x y. \<bar>x - y\<bar>) (elems a) (elems b)) / real (length (elems a))"

definition toy_ui_adj :: sparse where
  "toy_ui_adj = \<lparr>sp_shape = (5, 5),
     sp_items = [((1, 3), 10000000 / 10000001), ((3, 1), 10000000 / 10000001)]\<rparr>"

definition toy_kg_adj :: sparse where
  "toy_kg_adj = \<lparr>sp_shape = (4, 4),
     sp_items = [((1, 2), 1 / 2), ((1, 3), 1 / 2), ((2, 3), 1 / 2), ((3, 1), 1 / 2)]\<rparr>"

definition toy_user_table :: "real tensor" where
  "toy_user_table = \<lparr>shape = [2, 2], elems = [0, 0, 1, 2]\<rparr>"

definition toy_entity_table :: "real tensor" where
  "toy_entity_table = \<lparr>shape = [4, 2], elems = [0, 0, 1, 0, 0, 1, 2, 2]\<rparr>"

definition toy_model :: model where
  "toy_model = \<lparr>embedding_size = 2, n_kg_layers = 2, n_ui_layers = 1,
     cf_pos_flag = True, cf_neg_flag = True, max_neighbor_size = 2,
     cf_loss_function = ''mae'', cf_pos_weight = 1 / 2, cf_neg_weight = 1, ib_beta = 1 / 2,
     n_users = 2, n_items = 3, n_entities = 4,
     ui_adj = toy_ui_adj, kg_adj = toy_kg_adj,
     user_embedding = toy_user_table, entity_embedding = toy_entity_table,
     bpr_loss = bpr_loss_fn, mae_loss = l1_loss_fn,
     restore_user_e = None, restore_item_e = None\<rparr>"

text \<open>A batch of two interactions, and a batch of one.\<close>

definition toy_batch :: interaction where
  "toy_batch = \<lparr>users = \<lparr>shape = [2], elems = [1, 1]\<rparr>,
     pos_items = \<lparr>shape = [2], elems = [1, 2]\<rparr>, neg_items = \<lparr>shape = [2], elems = [2, 1]\<rparr>,
     cf_pos_kg_neighbors = Some toy_kg, cf_neg_kg_neighbors = Some toy_kg\<rparr>"

definition toy_single :: interaction where
  "toy_single = \<lparr>users = \<lparr>shape = [1], elems = [1]\<rparr>,
     pos_items = \<lparr>shape = [1], elems = [1]\<rparr>, neg_items = \<lparr>shape = [1], elems = [2]\<rparr>,
     cf_pos_kg_neighbors = Some toy_kg, cf_neg_kg_neighbors = Some toy_kg\<rparr>"

(*DEFS_END*)

section \<open>Properties\<close>

subsection \<open>Broadcasting and reductions of vectors and matrices\<close>

lemma broadcast_shapes_same: "broadcast_shapes rs rs = Some rs"
  by (induction rs) auto

lemma bcast_index_same: "k < prod_list rs \<Longrightarrow> bcast_index rs rs k = k"
proof (induction rs arbitrary: k)
  case Nil
  then show ?case by simp
next
  case (Cons r rs)
  have pos: "0 < r" using Cons.prems by (cases r) auto
  have "k div r < prod_list rs"
    using Cons.prems pos by (simp add: less_mult_imp_div_less mult.commute)
  then have ih: "bcast_index rs rs (k div r) = k div r" by (rule Cons.IH)
  show ?case
  proof (cases "r = 1")
    case True
    then show ?thesis using ih by simp
  next
    case False
    then show ?thesis using ih by simp
  qed
qed

lemma broadcast2_same:
  assumes "shape a = shape b"
  shows "broadcast2 f a b =
    Inr \<lparr>shape = shape a, elems = map (\<lambda>k. f (elems a ! k) (elems b ! k)) [0..<prod_list (shape a)]\<rparr>"
  using assms by (simp add: broadcast2_def broadcast_shapes_same bcast_index_same)

lemma sum_list_upt_lessThan: "sum_list (map f [0..<d]) = (\<Sum>j<d. f j)"
  by (simp add: interv_sum_list_conv_sum_set_nat atLeast0LessThan)

lemma concat_map_singleton: "concat (map (\<lambda>x. [f x]) xs) = map f xs"
  by (induction xs) auto

lemma reduce_dim_last2:
  "shape t = [b, d] \<Longrightarrow> reduce_dim g 1 t =
     Inr \<lparr>shape = [b], elems = map (\<lambda>i. g (map (\<lambda>j. elems t ! (i * d + j)) [0..<d])) [0..<b]\<rparr>"
  by (simp add: reduce_dim_def concat_map_singleton)

lemma reduce_dim_rank1: "shape t = [b] \<Longrightarrow> reduce_dim g 1 t = Inl IndexError"
  by (simp add: reduce_dim_def)

lemma get_reward2_vec:
  assumes "shape scoresA = [b]" and "shape scoresB = [b]"
  shows "get_reward2 scoresA scoresB =
           Inr \<lparr>shape = [b], elems = map (\<lambda>i.
               ln (1 / 10 ^ 10 + sigmoid (elems scoresA ! i - elems scoresB ! i))) [0..<b]\<rparr>"
  using assms by (simp add: get_reward2_def broadcast2_same and_then_def tmap_def)

lemma get_reward1_vec:
  assumes "shape scoresA = [b]" and "shape scoresB = [b]" and "shape embeddings = [b, d]"
  shows "get_reward1 self scoresA scoresB embeddings =
           Inr \<lparr>shape = [b], elems = map (\<lambda>i.
               ln (1 / 10 ^ 10 + sigmoid (elems scoresA ! i - elems scoresB ! i))
               - ib_beta self * sqrt (\<Sum>j<d. (elems embeddings ! (i * d + j))\<^sup>2)) [0..<b]\<rparr>"
proof -
  have d: "broadcast2 (-) scoresA scoresB =
      Inr \<lparr>shape = [b], elems = map (\<lambda>k. elems scoresA ! k - elems scoresB ! k) [0..<b]\<rparr>"
    using assms by (simp add: broadcast2_same)
  have n: "norm2_dim 1 embeddings =
      Inr \<lparr>shape = [b], elems = map (\<lambda>i. sqrt (sum_list (map (\<lambda>x. x\<^sup>2)
         (map (\<lambda>j. elems embeddings ! (i * d + j)) [0..<d])))) [0..<b]\<rparr>"
    unfolding norm2_dim_def by (rule reduce_dim_last2 [OF assms(3)])
  show ?thesis
    unfolding get_reward1_def d n
    by (simp add: and_then_def tmap_def broadcast2_same sum_list_upt_lessThan comp_def)
qed

subsection \<open>The reward formulas\<close>

text \<open>
  C4. For score vectors of one length \<open>b\<close> and a batch of \<open>b\<close> embeddings of width \<open>d\<close>,
  \<open>get_reward1\<close> returns, at every position \<open>i\<close>, \<open>log(gamma + sigmoid(scoresA[i] - scoresB[i]))\<close>
  minus \<open>ib_beta\<close> times the L2 norm of row \<open>i\<close> of the embeddings, and \<open>get_reward2\<close> returns
  \<open>log(gamma + sigmoid(scoresA[i] - scoresB[i]))\<close>, with \<open>gamma = 1e-10\<close> in both.
\<close>

theorem get_reward_formulas:
  assumes "shape scoresA = [b]" and "shape scoresB = [b]" and "shape embeddings = [b, d]"
  shows "get_reward1 self scoresA scoresB embeddings =
           Inr \<lparr>shape = [b], elems = map (\<lambda>i.
               ln (1 / 10 ^ 10 + sigmoid (elems scoresA ! i - elems scoresB ! i))
               - ib_beta self * sqrt (\<Sum>j<d. (elems embeddings ! (i * d + j))\<^sup>2)) [0..<b]\<rparr>
       \<and> get_reward2 scoresA scoresB =
           Inr \<lparr>shape = [b], elems = map (\<lambda>i.
               ln (1 / 10 ^ 10 + sigmoid (elems scoresA ! i - elems scoresB ! i))) [0..<b]\<rparr>"
  using get_reward1_vec [OF assms] get_reward2_vec [OF assms(1,2)] by simp

theorem get_reward_formulas_witness:
  "get_reward1 toy_config \<lparr>shape = [2], elems = [1, 2]\<rparr> \<lparr>shape = [2], elems = [0, 3]\<rparr>
       \<lparr>shape = [2, 2], elems = [1, 0, 0, 0]\<rparr> =
     Inr \<lparr>shape = [2], elems = [ln (1 / 10 ^ 10 + sigmoid 1) - 1 / 2,
                                  ln (1 / 10 ^ 10 + sigmoid (- 1))]\<rparr>
   \<and> get_reward2 \<lparr>shape = [2], elems = [1, 2]\<rparr> \<lparr>shape = [2], elems = [0, 3]\<rparr> =
     Inr \<lparr>shape = [2], elems = [ln (1 / 10 ^ 10 + sigmoid 1),
                                  ln (1 / 10 ^ 10 + sigmoid (- 1))]\<rparr>"
  using get_reward_formulas [of "\<lparr>shape = [2], elems = [1, 2]\<rparr>" 2
      "\<lparr>shape = [2], elems = [0, 3]\<rparr>" "\<lparr>shape = [2, 2], elems = [1, 0, 0, 0]\<rparr>" 2 toy_config]
  by (simp add: toy_config_def numeral_2_eq_2)

subsection \<open>Monotonicity of the rewards\<close>

lemma sigmoid_pos: "0 < sigmoid x"
  by (simp add: sigmoid_def add_pos_pos)

lemma sigmoid_less_iff: "sigmoid x < sigmoid y \<longleftrightarrow> x < y"
proof -
  have "sigmoid x < sigmoid y \<longleftrightarrow> 1 + exp (- y) < 1 + exp (- x)"
    unfolding sigmoid_def
    by (simp add: frac_less_eq add_pos_pos field_simps)
  then show ?thesis by simp
qed

lemma log_sigmoid_less_iff:
  "0 < g \<Longrightarrow> ln (g + sigmoid x) < ln (g + sigmoid y) \<longleftrightarrow> x < y"
proof -
  assume g: "0 < g"
  have "0 < g + sigmoid x" "0 < g + sigmoid y"
    using g sigmoid_pos [of x] sigmoid_pos [of y] by simp_all
  then show ?thesis using sigmoid_less_iff [of x y] by simp
qed

lemma log_sigmoid_eq_iff:
  "0 < g \<Longrightarrow> ln (g + sigmoid x) = ln (g + sigmoid y) \<longleftrightarrow> x = y"
  using log_sigmoid_less_iff [of g x y] log_sigmoid_less_iff [of g y x]
  by (metis less_irrefl linorder_neqE_linordered_idom)

text \<open>
  C9. With the embeddings fixed, both rewards depend on the scores only through the difference
  \<open>scoresA[i] - scoresB[i]\<close> and are strictly increasing in it: at every position the reward
  of one pair of score vectors is below (equal to) that of another exactly when the
  difference of the first pair is below (equal to) that of the second.
\<close>

theorem reward_monotone_in_difference:
  assumes "shape a = [b]" and "shape c = [b]" and "shape a' = [b]" and "shape c' = [b]"
    and "shape embeddings = [b, d]" and "i < b"
  shows "\<exists>r r' q q'.
       get_reward1 self a c embeddings = Inr r \<and> get_reward1 self a' c' embeddings = Inr r'
     \<and> get_reward2 a c = Inr q \<and> get_reward2 a' c' = Inr q'
     \<and> (elems r ! i < elems r' ! i \<longleftrightarrow> elems a ! i - elems c ! i < elems a' ! i - elems c' ! i)
     \<and> (elems r ! i = elems r' ! i \<longleftrightarrow> elems a ! i - elems c ! i = elems a' ! i - elems c' ! i)
     \<and> (elems q ! i < elems q' ! i \<longleftrightarrow> elems a ! i - elems c ! i < elems a' ! i - elems c' ! i)
     \<and> (elems q ! i = elems q' ! i \<longleftrightarrow> elems a ! i - elems c ! i = elems a' ! i - elems c' ! i)"
  using assms(6)
  by (simp add: get_reward1_vec [OF assms(1,2,5)] get_reward1_vec [OF assms(3,4,5)]
      get_reward2_vec [OF assms(1,2)] get_reward2_vec [OF assms(3,4)]
      log_sigmoid_less_iff log_sigmoid_eq_iff)

theorem reward_monotone_in_difference_witness:
  "\<exists>r r' q q'.
       get_reward1 toy_config \<lparr>shape = [2], elems = [1, 2]\<rparr> \<lparr>shape = [2], elems = [0, 3]\<rparr>
         \<lparr>shape = [2, 2], elems = [1, 0, 0, 0]\<rparr> = Inr r
     \<and> get_reward1 toy_config \<lparr>shape = [2], elems = [5, 2]\<rparr> \<lparr>shape = [2], elems = [3, 3]\<rparr>
         \<lparr>shape = [2, 2], elems = [1, 0, 0, 0]\<rparr> = Inr r'
     \<and> get_reward2 \<lparr>shape = [2], elems = [1, 2]\<rparr> \<lparr>shape = [2], elems = [0, 3]\<rparr> = Inr q
     \<and> get_reward2 \<lparr>shape = [2], elems = [5, 2]\<rparr> \<lparr>shape = [2], elems = [3, 3]\<rparr> = Inr q'
     \<and> elems r ! 0 < elems r' ! 0 \<and> elems r ! 1 = elems r' ! 1
     \<and> elems q ! 0 < elems q' ! 0 \<and> elems q ! 1 = elems q' ! 1"
  using reward_monotone_in_difference [of "\<lparr>shape = [2], elems = [1, 2]\<rparr>" 2
      "\<lparr>shape = [2], elems = [0, 3]\<rparr>" "\<lparr>shape = [2], elems = [5, 2]\<rparr>"
      "\<lparr>shape = [2], elems = [3, 3]\<rparr>" "\<lparr>shape = [2, 2], elems = [1, 0, 0, 0]\<rparr>" 2 0 toy_config]
    reward_monotone_in_difference [of "\<lparr>shape = [2], elems = [1, 2]\<rparr>" 2
      "\<lparr>shape = [2], elems = [0, 3]\<rparr>" "\<lparr>shape = [2], elems = [5, 2]\<rparr>"
      "\<lparr>shape = [2], elems = [3, 3]\<rparr>" "\<lparr>shape = [2, 2], elems = [1, 0, 0, 0]\<rparr>" 2 1 toy_config]
  by auto

subsection \<open>Sequencing, loops and lookups\<close>

lemma and_then_Inr [simp]: "and_then (Inr x) f = f x"
  by (simp add: and_then_def)

lemma and_then_Inl [simp]: "and_then (Inl e) f = Inl e"
  by (simp add: and_then_def)

lemma for_each_append:
  "for_each (xs @ ys) body s = and_then (for_each xs body s) (for_each ys body)"
  by (induction xs arbitrary: s) (auto simp: and_then_def split: sum.splits)

lemma for_each_upt_invariant:
  assumes "P 0 s0"
    and "\<And>i s. i < n \<Longrightarrow> P i s \<Longrightarrow> \<exists>s'. body i s = Inr s' \<and> P (Suc i) s'"
  shows "\<exists>s. for_each [0..<n] body s0 = Inr s \<and> P n s"
  using assms(2)
proof (induction n)
  case 0
  then show ?case using assms(1) by simp
next
  case (Suc n)
  have "\<exists>s. for_each [0..<n] body s0 = Inr s \<and> P n s"
    by (rule Suc.IH) (use Suc.prems in auto)
  then obtain s where s: "for_each [0..<n] body s0 = Inr s" "P n s" by blast
  obtain s' where s': "body n s = Inr s'" "P (Suc n) s'"
    using Suc.prems [of n s] s(2) by auto
  show ?case using s s' by (simp add: for_each_append)
qed

lemma map_r_all_Inr:
  "(\<And>x. x \<in> set xs \<Longrightarrow> f x = Inr (g x)) \<Longrightarrow> map_r f xs = Inr (map g xs)"
  by (induction xs) simp_all

lemma reduce_dim_shape:
  "k < length (shape t) \<Longrightarrow>
     \<exists>r. reduce_dim g k t = Inr r \<and> shape r = take k (shape t) @ drop (Suc k) (shape t)"
  by (simp add: reduce_dim_def Let_def)

lemma stack1_mean_shape:
  assumes "ts \<noteq> []" and "\<forall>t\<in>set ts. shape t = a # rest"
  shows "\<exists>r. and_then (stack1 ts) (mean_dim 1) = Inr r \<and> shape r = a # rest"
proof -
  obtain t ts' where ts: "ts = t # ts'" using assms(1) by (cases ts) auto
  have all: "list_all (\<lambda>u. shape u = shape t) ts"
    using assms(2) ts by (simp add: list_all_iff)
  have sht: "shape t = a # rest" using assms(2) ts by simp
  obtain st where st: "stack1 ts = Inr st" "shape st = a # length ts # rest"
    using all sht ts by (simp add: stack1_def Let_def)
  have "1 < length (shape st)" using st(2) by simp
  then obtain r where "reduce_dim (\<lambda>xs. sum_list xs / real (length xs)) 1 st = Inr r"
      "shape r = take 1 (shape st) @ drop (Suc 1) (shape st)"
    using reduce_dim_shape by blast
  then show ?thesis using st by (simp add: mean_dim_def)
qed

lemma stack1_scalars:
  assumes "ts \<noteq> []" and "\<forall>t\<in>set ts. shape t = []"
  shows "and_then (stack1 ts) f = Inl IndexError"
proof -
  obtain t ts' where ts: "ts = t # ts'" using assms(1) by (cases ts) auto
  have all: "list_all (\<lambda>u. shape u = shape t) ts"
    using assms(2) ts by (simp add: list_all_iff)
  have sht: "shape t = []" using assms(2) ts by simp
  show ?thesis using all sht ts by (simp add: stack1_def)
qed

lemma view_mean_hop:
  assumes "shape v = [b, m ^ Suc hop, d]" and "0 < b" and "0 < m" and "0 < d"
  shows "\<exists>r. and_then (view_infer [b] [m, d] v) (mean_dim 2) = Inr r \<and> shape r = [b, m ^ hop, d]"
proof -
  have dv: "b * (m * d) dvd b * (m * m ^ hop) * d"
    by (simp add: mult.assoc mult.left_commute)
  have q: "b * (m * m ^ hop) * d div (b * (m * d)) = m ^ hop"
  proof -
    have "b * (m * m ^ hop) * d = m ^ hop * (b * (m * d))" by (simp add: mult_ac)
    then show ?thesis using assms(2-4) by simp
  qed
  have vw: "view_infer [b] [m, d] v = Inr (v\<lparr>shape := [b, m ^ hop, m, d]\<rparr>)"
    using assms dv q by (simp add: view_infer_def numel_def)
  have "2 < length (shape (v\<lparr>shape := [b, m ^ hop, m, d]\<rparr>))" by simp
  then obtain r where "reduce_dim (\<lambda>xs. sum_list xs / real (length xs)) 2 (v\<lparr>shape := [b, m ^ hop, m, d]\<rparr>) = Inr r"
      "shape r = take 2 (shape (v\<lparr>shape := [b, m ^ hop, m, d]\<rparr>)) @ drop (Suc 2) (shape (v\<lparr>shape := [b, m ^ hop, m, d]\<rparr>))"
    using reduce_dim_shape by blast
  then show ?thesis using vw by (simp add: mean_dim_def)
qed


lemma map_r_snoc:
  "map_r f (xs @ [x]) = and_then (map_r f xs) (\<lambda>ys. and_then (f x) (\<lambda>y. Inr (ys @ [y])))"
  by (induction xs) (auto simp: and_then_def split: sum.splits)

lemma map_r_upt:
  assumes "\<And>k. k < n \<Longrightarrow> \<exists>r. f k = Inr r \<and> P k r"
  shows "\<exists>ys. map_r f [0..<n] = Inr ys \<and> length ys = n \<and> (\<forall>k<n. P k (ys ! k))"
  using assms
proof (induction n)
  case 0
  then show ?case by simp
next
  case (Suc n)
  have "\<exists>ys. map_r f [0..<n] = Inr ys \<and> length ys = n \<and> (\<forall>k<n. P k (ys ! k))"
    by (rule Suc.IH) (use Suc.prems in auto)
  then obtain ys where ys: "map_r f [0..<n] = Inr ys" "length ys = n" "\<forall>k<n. P k (ys ! k)"
    by blast
  obtain r where r: "f n = Inr r" "P n r" using Suc.prems [of n] by auto
  have "\<forall>k<Suc n. P k ((ys @ [r]) ! k)"
    using ys(2,3) r(2) by (auto simp: nth_append less_Suc_eq)
  then show ?case using ys r by (simp add: map_r_snoc)
qed

lemma cf_loop_step:
  assumes b: "0 < b" and m: "0 < m" and d: "0 < d" and i: "i < l"
    and inv: "hop_vectors_ok b m d l i s"
  shows "\<exists>s'. (\<lambda>(entity_vectors, item_embeddings_list).
           and_then (map_r (\<lambda>hop.
              and_then (nth_r entity_vectors (hop + 1)) (\<lambda>v.
              and_then (view_infer [b] [m, d] v) (mean_dim 2)))
              [0..<l - i]) (\<lambda>entity_vectors_next_iter.
           and_then (nth_r entity_vectors_next_iter 0) (\<lambda>head.
           Inr (entity_vectors_next_iter, item_embeddings_list @ [squeeze head])))) s = Inr s'
        \<and> hop_vectors_ok b m d l (Suc i) s'"
proof -
  obtain ev lst where s: "s = (ev, lst)" by (cases s)
  have len: "length ev = Suc l - i" and shp: "\<forall>k<length ev. shape (ev ! k) = [b, m ^ k, d]"
    and lst: "lst \<noteq> []" "\<forall>t\<in>set lst. shape t = filter (\<lambda>n. n \<noteq> 1) [b, 1, d]"
    using inv s by (simp_all add: hop_vectors_ok_def)
  have hop: "\<exists>r. and_then (nth_r ev (hop + 1)) (\<lambda>v.
              and_then (view_infer [b] [m, d] v) (mean_dim 2)) = Inr r \<and> shape r = [b, m ^ hop, d]"
    if "hop < l - i" for hop
  proof -
    have lt: "hop + 1 < length ev" using that len by simp
    then have "shape (ev ! (hop + 1)) = [b, m ^ Suc hop, d]" using shp by simp
    then show ?thesis
      using view_mean_hop [OF _ b m d] lt by (simp add: nth_r_def)
  qed
  obtain nxt where nxt: "map_r (\<lambda>hop.
              and_then (nth_r ev (hop + 1)) (\<lambda>v.
              and_then (view_infer [b] [m, d] v) (mean_dim 2))) [0..<l - i] = Inr nxt"
      "length nxt = l - i" "\<forall>k<l - i. shape (nxt ! k) = [b, m ^ k, d]"
    using map_r_upt [where P = "\<lambda>k r. shape r = [b, m ^ k, d]", OF hop] by blast
  have pos: "0 < length nxt" using nxt(2) i by simp
  have h0: "shape (nxt ! 0) = [b, 1, d]" using nxt(3) i by simp
  have "hop_vectors_ok b m d l (Suc i) (nxt, lst @ [squeeze (nxt ! 0)])"
    using nxt(2,3) lst h0 by (auto simp: hop_vectors_ok_def squeeze_def)
  then show ?thesis using s nxt(1) pos by (simp add: nth_r_def)
qed

lemma table_row_subset:
  "set (table_row t i) \<subseteq> set (elems t)"
  unfolding table_row_def by (meson set_take_subset set_drop_subset subset_trans)

lemma index_rows_table:
  assumes "shape kg = [n, m]" and "\<forall>x\<in>set (elems e). x < n"
  shows "index_rows kg e = Inr \<lparr>shape = shape e @ [m], elems = concat (map (table_row kg) (elems e))\<rparr>"
proof -
  have "table_row kg = (\<lambda>i. take m (drop (i * m) (elems kg)))"
    using assms(1) by (intro ext) (simp add: table_row_def)
  then show ?thesis using assms by (simp add: index_rows_def list_all_iff)
qed

lemma view_rows:
  assumes "shape t = [b, k, m]" and "0 < b"
  shows "view_infer [b] [] t = Inr (t\<lparr>shape := [b, k * m]\<rparr>)"
  using assms by (simp add: view_infer_def numel_def)

lemma hops_step:
  assumes kg: "shape kg = [n, m]" and b: "0 < b"
    and rng: "\<forall>x\<in>set (elems items) \<union> set (elems kg). x < n"
    and inv: "hops_ok kg b m items i ents"
  shows "\<exists>ents'. and_then (nth_r ents i) (\<lambda>e.
          and_then (index_rows kg e) (\<lambda>found.
          and_then (view_infer [b] [] found) (\<lambda>flat.
          Inr (ents @ [flat])))) = Inr ents' \<and> hops_ok kg b m items (Suc i) ents'"
proof -
  let ?e = "ents ! i"
  have len: "length ents = Suc i" and e0: "ents ! 0 = items\<lparr>shape := [b, 1]\<rparr>"
    using inv by (simp_all add: hops_ok_def)
  have she: "shape ?e = [b, m ^ i]" and sub: "set (elems ?e) \<subseteq> set (elems items) \<union> set (elems kg)"
    using inv by (simp_all add: hops_ok_def)
  have "\<forall>x\<in>set (elems ?e). x < n" using sub rng by blast
  then have ix: "index_rows kg ?e =
      Inr \<lparr>shape = [b, m ^ i, m], elems = concat (map (table_row kg) (elems ?e))\<rparr>"
    using index_rows_table [OF kg] she by simp
  let ?flat = "\<lparr>shape = [b, m ^ i * m], elems = concat (map (table_row kg) (elems ?e))\<rparr>"
  have vw: "view_infer [b] [] \<lparr>shape = [b, m ^ i, m], elems = concat (map (table_row kg) (elems ?e))\<rparr>
      = Inr ?flat"
    using view_rows [of "\<lparr>shape = [b, m ^ i, m], elems = concat (map (table_row kg) (elems ?e))\<rparr>" b "m ^ i" m] b
    by simp
  have run: "and_then (nth_r ents i) (\<lambda>e.
          and_then (index_rows kg e) (\<lambda>found.
          and_then (view_infer [b] [] found) (\<lambda>flat.
          Inr (ents @ [flat])))) = Inr (ents @ [?flat])"
    using len by (simp add: nth_r_def ix vw)
  have sub': "set (elems ?flat) \<subseteq> set (elems items) \<union> set (elems kg)"
    using table_row_subset [of kg] by auto
  have "hops_ok kg b m items (Suc i) (ents @ [?flat])"
    unfolding hops_ok_def
  proof (intro conjI allI impI)
    show "length (ents @ [?flat]) = Suc (Suc i)" using len by simp
    show "(ents @ [?flat]) ! 0 = items\<lparr>shape := [b, 1]\<rparr>" using len e0 by (simp add: nth_append)
  next
    fix k assume k: "k \<le> Suc i"
    show "shape ((ents @ [?flat]) ! k) = [b, m ^ k]"
    proof (cases "k = Suc i")
      case True
      then show ?thesis using len by (simp add: nth_append mult.commute)
    next
      case False
      then have "k \<le> i" using k by simp
      then show ?thesis using inv len by (simp add: hops_ok_def nth_append)
    qed
    show "set (elems ((ents @ [?flat]) ! k)) \<subseteq> set (elems items) \<union> set (elems kg)"
    proof (cases "k = Suc i")
      case True
      then show ?thesis using len sub' by (simp add: nth_append)
    next
      case False
      then have "k \<le> i" using k by simp
      then show ?thesis using inv len by (simp add: hops_ok_def nth_append)
    qed
  next
    fix k assume k: "k < Suc i"
    show "elems ((ents @ [?flat]) ! Suc k) = concat (map (table_row kg) (elems ((ents @ [?flat]) ! k)))"
    proof (cases "k = i")
      case True
      then show ?thesis using len by (simp add: nth_append)
    next
      case False
      then have "k < i" using k by simp
      then show ?thesis using inv len by (simp add: hops_ok_def nth_append)
    qed
  qed
  then show ?thesis using run by blast
qed



lemma get_batch_neighbors_ok:
  assumes items: "shape items = [b]" and b: "0 < b"
    and kg: "shape kg_neighbors = [n, max_neighbor_size self]"
    and rng: "\<forall>x\<in>set (elems items) \<union> set (elems kg_neighbors). x < n"
  shows "\<exists>entities. get_batch_neighbors self items kg_neighbors = Inr entities
     \<and> hops_ok kg_neighbors b (max_neighbor_size self) items (n_kg_layers self) entities"
proof -
  let ?m = "max_neighbor_size self"
  let ?first = "items\<lparr>shape := [b, 1]\<rparr>"
  have init: "hops_ok kg_neighbors b ?m items 0 [?first]"
    by (simp add: hops_ok_def)
  have "\<exists>s. for_each [0..<n_kg_layers self]
       (\<lambda>i entities.
          and_then (nth_r entities i) (\<lambda>e.
          and_then (index_rows kg_neighbors e) (\<lambda>found.
          and_then (view_infer [b] [] found) (\<lambda>flat.
          Inr (entities @ [flat])))))
       [?first] = Inr s \<and> hops_ok kg_neighbors b ?m items (n_kg_layers self) s"
    by (rule for_each_upt_invariant [where P = "hops_ok kg_neighbors b ?m items", OF init])
       (rule hops_step [OF kg b rng])
  then show ?thesis
    using items by (simp add: get_batch_neighbors_def shape0_def unsqueeze1_def)
qed



lemma lookup_hop:
  assumes emb: "shape (table :: real tensor) = [n, d]"
    and e: "e \<in> set ents"
    and len: "length ents = Suc l"
    and sub: "\<forall>k\<le>l. set (elems (ents ! k)) \<subseteq> (S :: nat set)"
    and rng: "\<forall>x\<in>S. x < n"
  shows "index_rows table e =
     Inr \<lparr>shape = shape e @ [d], elems = concat (map (table_row table) (elems e))\<rparr>"
proof -
  obtain k where k: "k < length ents" "ents ! k = e"
    using e unfolding in_set_conv_nth by blast
  have "k \<le> l" using k(1) len by simp
  then have "set (elems (ents ! k)) \<subseteq> S"
    using sub by blast
  then have "\<forall>x\<in>set (elems e). x < n"
    using k(2) rng by blast
  then show ?thesis by (rule index_rows_table [OF emb])
qed


lemma get_cf_i_embeddings_run:
  assumes items: "shape items = [b]" and b: "0 < b"
    and kg: "shape kg_neighbors = [n, max_neighbor_size self]" and m: "0 < max_neighbor_size self"
    and emb: "shape (entity_embedding self) = [n, embedding_size self]"
    and d: "0 < embedding_size self"
    and rng: "\<forall>x\<in>set (elems items) \<union> set (elems kg_neighbors). x < n"
  shows "\<exists>lst. lst \<noteq> [] \<and> (\<forall>t\<in>set lst. shape t = filter (\<lambda>n. n \<noteq> 1) [b, 1, embedding_size self])
     \<and> get_cf_i_embeddings self items kg_neighbors = and_then (stack1 lst) (mean_dim 1)"
proof -
  let ?m = "max_neighbor_size self" and ?d = "embedding_size self" and ?l = "n_kg_layers self"
  let ?g = "\<lambda>e. \<lparr>shape = shape e @ [?d],
                  elems = concat (map (table_row (entity_embedding self)) (elems e))\<rparr>"
  obtain ents where ents: "get_batch_neighbors self items kg_neighbors = Inr ents"
      and ok: "hops_ok kg_neighbors b ?m items ?l ents"
    using get_batch_neighbors_ok [OF items b kg rng] by blast
  have len: "length ents = Suc ?l" and shp: "\<forall>k\<le>?l. shape (ents ! k) = [b, ?m ^ k]"
    and sub: "\<forall>k\<le>?l. set (elems (ents ! k)) \<subseteq> set (elems items) \<union> set (elems kg_neighbors)"
    using ok by (simp_all add: hops_ok_def)
  have look: "index_rows (entity_embedding self) e = Inr (?g e)" if "e \<in> set ents" for e
    by (rule lookup_hop [OF emb that len sub rng])
  have vecs: "map_r (index_rows (entity_embedding self)) ents = Inr (map ?g ents)"
    by (rule map_r_all_Inr) (rule look)
  have first: "nth_r (map ?g ents) 0 = Inr (?g (ents ! 0))"
    using len by (simp add: nth_r_def)
  have init: "hop_vectors_ok b ?m ?d ?l 0 (map ?g ents, [squeeze (?g (ents ! 0))])"
  proof -
    have "shape (ents ! 0) = [b, ?m ^ 0]" using shp by blast
    then have sq: "shape (squeeze (?g (ents ! 0))) = filter (\<lambda>n. n \<noteq> 1) [b, 1, ?d]"
      by (simp add: squeeze_def)
    have "shape (map ?g ents ! k) = [b, ?m ^ k, ?d]" if "k < length (map ?g ents)" for k
      using that len shp by simp
    then show ?thesis using len sq by (simp add: hop_vectors_ok_def)
  qed
  have "\<exists>s. for_each [0..<?l]
        (\<lambda>i (entity_vectors, item_embeddings_list).
           and_then (map_r (\<lambda>hop.
              and_then (nth_r entity_vectors (hop + 1)) (\<lambda>v.
              and_then (view_infer [b] [?m, ?d] v) (mean_dim 2)))
              [0..<?l - i]) (\<lambda>entity_vectors_next_iter.
           and_then (nth_r entity_vectors_next_iter 0) (\<lambda>head.
           Inr (entity_vectors_next_iter, item_embeddings_list @ [squeeze head]))))
        (map ?g ents, [squeeze (?g (ents ! 0))]) = Inr s \<and> hop_vectors_ok b ?m ?d ?l ?l s"
    by (rule for_each_upt_invariant [where P = "hop_vectors_ok b ?m ?d ?l", OF init])
       (rule cf_loop_step [OF b m d])
  then obtain s where s: "for_each [0..<?l]
        (\<lambda>i (entity_vectors, item_embeddings_list).
           and_then (map_r (\<lambda>hop.
              and_then (nth_r entity_vectors (hop + 1)) (\<lambda>v.
              and_then (view_infer [b] [?m, ?d] v) (mean_dim 2)))
              [0..<?l - i]) (\<lambda>entity_vectors_next_iter.
           and_then (nth_r entity_vectors_next_iter 0) (\<lambda>head.
           Inr (entity_vectors_next_iter, item_embeddings_list @ [squeeze head]))))
        (map ?g ents, [squeeze (?g (ents ! 0))]) = Inr s" and fin: "hop_vectors_ok b ?m ?d ?l ?l s"
    by blast
  obtain ev lst where sp: "s = (ev, lst)" by (cases s)
  have run: "get_cf_i_embeddings self items kg_neighbors = and_then (stack1 lst) (mean_dim 1)"
    unfolding get_cf_i_embeddings_def
    using items ents vecs first s sp by (simp add: shape0_def)
  show ?thesis using fin sp run by (auto simp: hop_vectors_ok_def)
qed


lemma get_cf_i_embeddings_shape:
  assumes items: "shape items = [b]" and b: "0 < b"
    and kg: "shape kg_neighbors = [n, max_neighbor_size self]" and m: "0 < max_neighbor_size self"
    and emb: "shape (entity_embedding self) = [n, embedding_size self]"
    and d: "1 < embedding_size self"
    and rng: "\<forall>x\<in>set (elems items) \<union> set (elems kg_neighbors). x < n"
  shows "\<exists>cf. get_cf_i_embeddings self items kg_neighbors = Inr cf
           \<and> shape cf = (if b = 1 then [embedding_size self] else [b, embedding_size self])"
proof -
  have d0: "0 < embedding_size self" using d by simp
  obtain lst where lst: "lst \<noteq> []"
      "\<forall>t\<in>set lst. shape t = filter (\<lambda>n. n \<noteq> 1) [b, 1, embedding_size self]"
      "get_cf_i_embeddings self items kg_neighbors = and_then (stack1 lst) (mean_dim 1)"
    using get_cf_i_embeddings_run [OF items b kg m emb d0 rng] by blast
  show ?thesis
  proof (cases "b = 1")
    case True
    then have "\<forall>t\<in>set lst. shape t = embedding_size self # []" using lst(2) d by simp
    then show ?thesis using stack1_mean_shape [OF lst(1)] lst(3) True by simp
  next
    case False
    then have "\<forall>t\<in>set lst. shape t = b # [embedding_size self]" using lst(2) d by simp
    then show ?thesis using stack1_mean_shape [OF lst(1)] lst(3) False by simp
  qed
qed

subsection \<open>Multi-hop neighbor expansion\<close>

text \<open>
  C7. For a batch of \<open>b\<close> items (at least one) and a neighbor table of \<open>max_neighbor_size\<close>
  slots per entity, all identifiers being rows of the table, \<open>get_batch_neighbors\<close> returns
  \<open>n_kg_layers + 1\<close> levels; level 0 is the batch itself, as a column; level \<open>k\<close> has shape
  \<open>b\<close> by \<open>max_neighbor_size ^ k\<close>, and holds, flattened, the table rows of the entities of
  level \<open>k - 1\<close>.
\<close>

theorem get_batch_neighbors_hops:
  assumes items: "shape items = [b]" and b: "0 < b"
    and kg: "shape kg_neighbors = [n, max_neighbor_size self]"
    and rng: "\<forall>x\<in>set (elems items) \<union> set (elems kg_neighbors). x < n"
  shows "\<exists>entities. get_batch_neighbors self items kg_neighbors = Inr entities
     \<and> length entities = n_kg_layers self + 1
     \<and> entities ! 0 = items\<lparr>shape := [b, 1]\<rparr>
     \<and> (\<forall>k\<le>n_kg_layers self. shape (entities ! k) = [b, max_neighbor_size self ^ k])
     \<and> (\<forall>k<n_kg_layers self.
          elems (entities ! Suc k) = concat (map (table_row kg_neighbors) (elems (entities ! k))))"
  using get_batch_neighbors_ok [OF assms] by (auto simp: hops_ok_def)

theorem get_batch_neighbors_hops_witness:
  "\<exists>entities. get_batch_neighbors toy_config toy_items toy_kg = Inr entities
     \<and> length entities = 3
     \<and> entities ! 0 = \<lparr>shape = [2, 1], elems = [1, 2]\<rparr>
     \<and> shape (entities ! 1) = [2, 2] \<and> shape (entities ! 2) = [2, 4]
     \<and> elems (entities ! 1) = [2, 3, 3, 3]
     \<and> elems (entities ! 2) = [3, 3, 1, 0, 1, 0, 1, 0]"
proof -
  have "\<exists>entities. get_batch_neighbors toy_config toy_items toy_kg = Inr entities
     \<and> length entities = n_kg_layers toy_config + 1
     \<and> entities ! 0 = toy_items\<lparr>shape := [2, 1]\<rparr>
     \<and> (\<forall>k\<le>n_kg_layers toy_config. shape (entities ! k) = [2, max_neighbor_size toy_config ^ k])
     \<and> (\<forall>k<n_kg_layers toy_config.
          elems (entities ! Suc k) = concat (map (table_row toy_kg) (elems (entities ! k))))"
    by (rule get_batch_neighbors_hops [where n = 4])
       (auto simp: toy_items_def toy_kg_def toy_config_def)
  then obtain entities where e: "get_batch_neighbors toy_config toy_items toy_kg = Inr entities"
      "length entities = 3" "entities ! 0 = \<lparr>shape = [2, 1], elems = [1, 2]\<rparr>"
      "\<forall>k\<le>2. shape (entities ! k) = [2, 2 ^ k]"
      "\<forall>k<2. elems (entities ! Suc k) = concat (map (table_row toy_kg) (elems (entities ! k)))"
    by (auto simp: toy_config_def toy_items_def)
  have s1: "shape (entities ! 1) = [2, 2]" and s2: "shape (entities ! 2) = [2, 4]"
    using e(4) by (auto dest: spec [of _ 1] spec [of _ 2])
  have e1: "elems (entities ! 1) = [2, 3, 3, 3]"
    using e(5) e(3) by (auto dest!: spec [of _ 0] simp: table_row_def toy_kg_def)
  have "elems (entities ! Suc 1) = concat (map (table_row toy_kg) (elems (entities ! 1)))"
    using e(5) by (auto dest!: spec [of _ 1])
  then have e2: "elems (entities ! 2) = [3, 3, 1, 0, 1, 0, 1, 0]"
    using e1 by (simp add: table_row_def toy_kg_def numeral_2_eq_2)
  show ?thesis using e(1,2,3) s1 s2 e1 e2 by blast
qed

subsection \<open>Scores of a batch\<close>

lemma flat_index_less: "i < b \<Longrightarrow> j < d \<Longrightarrow> i * d + j < b * (d::nat)"
proof -
  assume a: "i < b" "j < d"
  have "i * d + j < i * d + d" using a(2) by simp
  also have "\<dots> = Suc i * d" by simp
  also have "\<dots> \<le> b * d" using a(1) by (intro mult_le_mono1) simp
  finally show ?thesis .
qed

lemma mul_sum_same:
  assumes "shape a = [b, d]" and "shape c = [b, d]"
  shows "mul_sum a c = Inr \<lparr>shape = [b],
           elems = map (\<lambda>i. \<Sum>j<d. elems a ! (i * d + j) * elems c ! (i * d + j)) [0..<b]\<rparr>"
proof -
  let ?p = "\<lparr>shape = [b, d], elems = map (\<lambda>k. elems a ! k * elems c ! k) [0..<b * d]\<rparr>"
  have br: "broadcast2 (*) a c = Inr ?p"
    using assms by (simp add: broadcast2_same)
  have "sum_dim 1 ?p = Inr \<lparr>shape = [b],
      elems = map (\<lambda>i. sum_list (map (\<lambda>j. elems ?p ! (i * d + j)) [0..<d])) [0..<b]\<rparr>"
    unfolding sum_dim_def by (rule reduce_dim_last2) simp
  also have "map (\<lambda>i. sum_list (map (\<lambda>j. elems ?p ! (i * d + j)) [0..<d])) [0..<b]
      = map (\<lambda>i. \<Sum>j<d. elems a ! (i * d + j) * elems c ! (i * d + j)) [0..<b]"
  proof (rule map_cong [OF refl])
    fix i assume "i \<in> set [0..<b]"
    then have i: "i < b" by simp
    have "map (\<lambda>j. elems ?p ! (i * d + j)) [0..<d]
        = map (\<lambda>j. elems a ! (i * d + j) * elems c ! (i * d + j)) [0..<d]"
      by (rule map_cong [OF refl]) (use i flat_index_less [of i b _ d] in simp)
    then show "sum_list (map (\<lambda>j. elems ?p ! (i * d + j)) [0..<d])
        = (\<Sum>j<d. elems a ! (i * d + j) * elems c ! (i * d + j))"
      by (simp add: sum_list_upt_lessThan)
  qed
  finally show ?thesis using br by (simp add: mul_sum_def)
qed

lemma mul_sum_single:
  assumes "shape a = [1, d]" and "shape c = [d]" and "1 < d"
  shows "mul_sum a c = Inr \<lparr>shape = [1],
           elems = map (\<lambda>i. \<Sum>j<d. elems a ! (i * d + j) * elems c ! (i * d + j)) [0..<1]\<rparr>"
proof -
  let ?p = "\<lparr>shape = [1, d], elems = map (\<lambda>k. elems a ! k * elems c ! k) [0..<d]\<rparr>"
  have ix: "bcast_index [d, 1] [d, 1] k = k" if "k < d" for k
    using that bcast_index_same [of k "[d, 1]"] by simp
  have br: "broadcast2 (*) a c = Inr ?p"
    using assms ix by (simp add: broadcast2_def)
  have "sum_dim 1 ?p = Inr \<lparr>shape = [1],
      elems = map (\<lambda>i. sum_list (map (\<lambda>j. elems ?p ! (i * d + j)) [0..<d])) [0..<1]\<rparr>"
    unfolding sum_dim_def by (rule reduce_dim_last2) simp
  also have "map (\<lambda>i. sum_list (map (\<lambda>j. elems ?p ! (i * d + j)) [0..<d])) [0..<1]
      = map (\<lambda>i. \<Sum>j<d. elems a ! (i * d + j) * elems c ! (i * d + j)) [0..<1]"
  proof -
    have "map (\<lambda>j. elems ?p ! j) [0..<d]
        = map (\<lambda>j. elems a ! j * elems c ! j) [0..<d]"
      by (rule map_cong [OF refl]) simp
    then show ?thesis by (simp add: sum_list_upt_lessThan)
  qed
  finally show ?thesis using br by (simp add: mul_sum_def)
qed


lemma get_reward1_flat_embeddings:
  assumes "shape a = [b]" and "shape c = [b]" and "shape e = [d]"
  shows "get_reward1 self a c e = Inl IndexError"
proof -
  have n: "norm2_dim 1 e = Inl IndexError"
    unfolding norm2_dim_def by (rule reduce_dim_rank1 [OF assms(3)])
  show ?thesis
    unfolding get_reward1_def n using assms(1,2) by (simp add: broadcast2_same)
qed

lemma single_interaction_scores:
  assumes idx: "shape idx = [1]" and t: "shape t = [n, d]" and rng: "\<forall>x\<in>set (elems idx). x < n"
    and u: "shape u = [1, d]"
  shows "\<exists>rows s. index_rows t idx = Inr rows \<and> shape rows = [1, d]
           \<and> mul_sum u rows = Inr s \<and> shape s = [1]"
proof -
  have r: "index_rows t idx = Inr \<lparr>shape = [1, d], elems = concat (map (table_row t) (elems idx))\<rparr>"
    using index_rows_table [OF t rng] idx by simp
  show ?thesis using r mul_sum_same [OF u, of "\<lparr>shape = [1, d], elems = concat (map (table_row t) (elems idx))\<rparr>"]
    by simp
qed

lemma single_interaction_cf_scores:
  assumes items: "shape items = [1]"
    and kg: "shape kg_neighbors = [n, max_neighbor_size self]" and m: "0 < max_neighbor_size self"
    and emb: "shape (entity_embedding self) = [n, embedding_size self]"
    and d: "1 < embedding_size self"
    and rng: "\<forall>x\<in>set (elems items) \<union> set (elems kg_neighbors). x < n"
    and u: "shape u = [1, embedding_size self]"
  shows "\<exists>cf s. get_cf_i_embeddings self items kg_neighbors = Inr cf \<and> shape cf = [embedding_size self]
           \<and> mul_sum u cf = Inr s \<and> shape s = [1]"
proof -
  obtain cf where cf: "get_cf_i_embeddings self items kg_neighbors = Inr cf"
      "shape cf = [embedding_size self]"
    using get_cf_i_embeddings_shape [OF items _ kg m emb d rng] by auto
  show ?thesis using cf mul_sum_single [OF u cf(2) d] by simp
qed

lemma generate_rewards_single_interaction:
  assumes users: "shape (users interaction) = [1]"
    and pos: "shape (pos_items interaction) = [1]"
    and neg: "shape (neg_items interaction) = [1]"
    and ua: "shape user_all = [nu, embedding_size self]"
    and ea: "shape entity_all = [n, embedding_size self]"
    and emb: "shape (entity_embedding self) = [n, embedding_size self]"
    and d: "1 < embedding_size self" and m: "0 < max_neighbor_size self"
    and kg1: "shape kg1 = [n, max_neighbor_size self]"
    and kg2: "shape kg2 = [n, max_neighbor_size self]"
    and rng_u: "\<forall>x\<in>set (elems (users interaction)). x < nu"
    and rng_p: "\<forall>x\<in>set (elems (pos_items interaction)). x < n"
    and rng_n: "\<forall>x\<in>set (elems (neg_items interaction)). x < n"
    and rng1: "\<forall>x\<in>set (elems kg1). x < n"
    and rng2: "\<forall>x\<in>set (elems kg2). x < n"
  shows "generate_pos_reward self interaction kg1 kg2 user_all entity_all = Inl IndexError
       \<and> generate_neg_reward self interaction kg1 kg2 user_all entity_all = Inl IndexError"
proof -
  let ?d = "embedding_size self"
  obtain u0 where u: "index_rows user_all (users interaction) = Inr u0"
      and su: "shape u0 = [1, ?d]"
    using index_rows_table [OF ua rng_u] users by simp
  obtain pr ps where p: "index_rows entity_all (pos_items interaction) = Inr pr"
      "mul_sum u0 pr = Inr ps" "shape ps = [1]"
    using single_interaction_scores [OF pos ea rng_p su] by blast
  obtain nr ns where n: "index_rows entity_all (neg_items interaction) = Inr nr"
      "mul_sum u0 nr = Inr ns" "shape ns = [1]"
    using single_interaction_scores [OF neg ea rng_n su] by blast
  have rp: "\<forall>x\<in>set (elems (pos_items interaction)) \<union> set (elems kg1). x < n"
    using rng_p rng1 by blast
  have rn: "\<forall>x\<in>set (elems (neg_items interaction)) \<union> set (elems kg1). x < n"
    using rng_n rng1 by blast
  obtain cfp sp where cfp: "get_cf_i_embeddings self (pos_items interaction) kg1 = Inr cfp"
      "shape cfp = [?d]" "mul_sum u0 cfp = Inr sp" "shape sp = [1]"
    using single_interaction_cf_scores [OF pos kg1 m emb d rp su] by blast
  obtain cfn sn where cfn: "get_cf_i_embeddings self (neg_items interaction) kg1 = Inr cfn"
      "shape cfn = [?d]" "mul_sum u0 cfn = Inr sn" "shape sn = [1]"
    using single_interaction_cf_scores [OF neg kg1 m emb d rn su] by blast
  have r1p: "get_reward1 self sp ns cfp = Inl IndexError"
    by (rule get_reward1_flat_embeddings [OF cfp(4) n(3) cfp(2)])
  have r1n: "get_reward1 self ps sn cfn = Inl IndexError"
    by (rule get_reward1_flat_embeddings [OF p(3) cfn(4) cfn(2)])
  have "generate_pos_reward self interaction kg1 kg2 user_all entity_all = Inl IndexError"
    unfolding generate_pos_reward_def Let_def by (simp add: u p n cfp r1p)
  moreover have "generate_neg_reward self interaction kg1 kg2 user_all entity_all = Inl IndexError"
    unfolding generate_neg_reward_def Let_def by (simp add: u p n cfn r1n)
  ultimately show ?thesis by simp
qed

text \<open>
  C1, at a batch of one interaction. \<open>get_cf_i_embeddings\<close> squeezes every dimension of size 1,
  so for one item the counterfactual embedding loses its batch dimension; the scores are still
  computed, by broadcasting, but \<open>torch.norm(embeddings, dim=1)\<close> in \<open>get_reward1\<close> then has
  no dimension 1 and raises. Both reward entry points raise IndexError on the batch of one
  interaction of the small instance.
\<close>

theorem generate_rewards_single_interaction_raise:
  "generate_pos_reward toy_model toy_single toy_kg toy_kg toy_user_table toy_entity_table
     = Inl IndexError
   \<and> generate_neg_reward toy_model toy_single toy_kg toy_kg toy_user_table toy_entity_table
     = Inl IndexError"
  by (rule generate_rewards_single_interaction [where nu = 2 and n = 4])
     (simp_all add: toy_model_def toy_single_def toy_kg_def toy_user_table_def
        toy_entity_table_def)

subsection \<open>Propagation through a graph\<close>

lemma nth_concat_uniform:
  "\<forall>xs\<in>set xss. length xs = m \<Longrightarrow> i < length xss \<Longrightarrow> j < m
     \<Longrightarrow> concat xss ! (i * m + j) = xss ! i ! j"
proof (induction xss arbitrary: i)
  case Nil
  then show ?case by simp
next
  case (Cons xs xss)
  show ?case
  proof (cases i)
    case 0
    then show ?thesis using Cons.prems by (simp add: nth_append)
  next
    case (Suc i')
    have "concat (xs # xss) ! (i * m + j) = concat xss ! (i' * m + j)"
      using Cons.prems Suc by (simp add: nth_append)
    also have "\<dots> = xss ! i' ! j"
      using Cons.prems Suc by (intro Cons.IH) auto
    finally show ?thesis using Suc by simp
  qed
qed

lemma length_concat_uniform:
  "\<forall>xs\<in>set xss. length xs = m \<Longrightarrow> length (concat xss) = length xss * m"
  by (induction xss) auto

lemma length_grid:
  "length (concat (map (\<lambda>i. map (f i) [0..<d]) [0..<n])) = n * d"
  by (induction n) simp_all

lemma sparse_mm_shape:
  assumes "shape e = [n, d]" and "snd (sp_shape adj) = n"
  shows "\<exists>r. sparse_mm adj e = Inr r \<and> shape r = [fst (sp_shape adj), d]
     \<and> length (elems r) = fst (sp_shape adj) * d"
  using assms by (simp add: sparse_mm_def length_grid)

lemma layers_step:
  assumes adj: "sp_shape adj = (n, n)" and inv: "layers_ok adj e n d i s"
  shows "\<exists>s'. (\<lambda>(all_embeddings, all_embeddings_list).
           and_then (sparse_mm adj all_embeddings) (\<lambda>all_embeddings.
           Inr (all_embeddings, all_embeddings_list @ [all_embeddings]))) s = Inr s'
        \<and> layers_ok adj e n d (Suc i) s'"
proof -
  obtain cur lst where s: "s = (cur, lst)" by (cases s)
  have len: "length lst = Suc i" and l0: "lst ! 0 = e" and cur: "cur = lst ! i"
    and shp: "\<forall>l\<le>i. shape (lst ! l) = [n, d] \<and> length (elems (lst ! l)) = n * d"
    and stp: "\<forall>l<i. sparse_mm adj (lst ! l) = Inr (lst ! Suc l)"
    using inv s by (simp_all add: layers_ok_def)
  have "shape cur = [n, d]" using shp cur by simp
  then obtain r where r: "sparse_mm adj cur = Inr r" "shape r = [n, d]" "length (elems r) = n * d"
    using sparse_mm_shape [of cur n d adj] adj by auto
  have "layers_ok adj e n d (Suc i) (r, lst @ [r])"
    unfolding layers_ok_def
  proof (intro conjI allI impI)
    show "length (snd (r, lst @ [r])) = Suc (Suc i)" using len by simp
    show "snd (r, lst @ [r]) ! 0 = e" using len l0 by (simp add: nth_append)
    show "fst (r, lst @ [r]) = snd (r, lst @ [r]) ! Suc i" using len by (simp add: nth_append)
  next
    fix l assume "l \<le> Suc i"
    then show "shape (snd (r, lst @ [r]) ! l) = [n, d]"
      using len shp r(2) by (cases "l = Suc i") (simp_all add: nth_append)
  next
    fix l assume "l \<le> Suc i"
    then show "length (elems (snd (r, lst @ [r]) ! l)) = n * d"
      using len shp r(3) by (cases "l = Suc i") (simp_all add: nth_append)
  next
    fix l assume "l < Suc i"
    then show "sparse_mm adj (snd (r, lst @ [r]) ! l) = Inr (snd (r, lst @ [r]) ! Suc l)"
      using len stp r(1) cur by (cases "l = i") (simp_all add: nth_append)
  qed
  then show ?thesis using s r(1) by simp
qed

lemma through_graph_layers:
  assumes e: "shape e = [n, d]" and wf: "length (elems e) = n * d" and adj: "sp_shape adj = (n, n)"
  shows "\<exists>lst. through_graph adj e l = and_then (stack1 lst) (mean_dim 1)
     \<and> length lst = Suc l \<and> lst ! 0 = e
     \<and> (\<forall>k\<le>l. shape (lst ! k) = [n, d] \<and> length (elems (lst ! k)) = n * d)
     \<and> (\<forall>k<l. sparse_mm adj (lst ! k) = Inr (lst ! Suc k))"
proof -
  have init: "layers_ok adj e n d 0 (e, [e])"
    using e wf by (simp add: layers_ok_def)
  have "\<exists>s. for_each [0..<l]
        (\<lambda>layer_idx (all_embeddings, all_embeddings_list).
           and_then (sparse_mm adj all_embeddings) (\<lambda>all_embeddings.
           Inr (all_embeddings, all_embeddings_list @ [all_embeddings])))
        (e, [e]) = Inr s \<and> layers_ok adj e n d l s"
    by (rule for_each_upt_invariant [where P = "layers_ok adj e n d", OF init])
       (rule layers_step [OF adj])
  then obtain s where s: "for_each [0..<l]
        (\<lambda>layer_idx (all_embeddings, all_embeddings_list).
           and_then (sparse_mm adj all_embeddings) (\<lambda>all_embeddings.
           Inr (all_embeddings, all_embeddings_list @ [all_embeddings])))
        (e, [e]) = Inr s" and ok: "layers_ok adj e n d l s"
    by blast
  obtain cur lst where sp: "s = (cur, lst)" by (cases s)
  have "through_graph adj e l = and_then (stack1 lst) (mean_dim 1)"
    unfolding through_graph_def using s sp by simp
  then show ?thesis using ok sp by (auto simp: layers_ok_def)
qed


lemma stack1_matrices:
  assumes ne: "ts \<noteq> []" and sh: "\<forall>t\<in>set ts. shape t = [n, d]"
  shows "stack1 ts = Inr \<lparr>shape = [n, length ts, d],
      elems = concat (map (\<lambda>i. concat (map (\<lambda>u. take d (drop (i * d) (elems u))) ts)) [0..<n])\<rparr>"
proof -
  obtain t ts' where ts: "ts = t # ts'" using ne by (cases ts) auto
  have all: "list_all (\<lambda>u. shape u = shape t) ts"
    using sh ts by (simp add: list_all_iff)
  have sht: "shape t = [n, d]" using sh ts by simp
  show ?thesis using all sht unfolding stack1_def ts by (simp add: Let_def)
qed

lemma stacked_nth:
  assumes len: "\<forall>t\<in>set ts. length (elems t) = n * d"
    and i: "i < n" and j: "j < length ts" and p: "p < d"
  shows "concat (map (\<lambda>i. concat (map (\<lambda>u. take d (drop (i * d) (elems u))) ts)) [0..<n])
           ! ((i * length ts + j) * d + p) = elems (ts ! j) ! (i * d + p)"
proof -
  let ?row = "\<lambda>i. map (\<lambda>u. take d (drop (i * d) (elems u))) ts"
  have slice: "length (take d (drop (i' * d) (elems u))) = d" if "u \<in> set ts" "i' < n" for u i'
  proof -
    have "Suc i' * d \<le> n * d" using that(2) by (intro mult_le_mono1) simp
    then show ?thesis using len that(1) by simp
  qed
  have inner: "\<forall>xs\<in>set (?row i'). length xs = d" if "i' < n" for i'
    using slice that by auto
  have blocks: "\<forall>xs\<in>set (map (\<lambda>i. concat (?row i)) [0..<n]). length xs = length ts * d"
    using length_concat_uniform [OF inner] by auto
  have jp: "j * d + p < length ts * d" using j p by (rule flat_index_less)
  have eq: "(i * length ts + j) * d + p = i * (length ts * d) + (j * d + p)"
    by (simp add: algebra_simps)
  have "length (map (\<lambda>i. concat (?row i)) [0..<n]) = n" by simp
  then have "concat (map (\<lambda>i. concat (?row i)) [0..<n]) ! (i * (length ts * d) + (j * d + p))
      = map (\<lambda>i. concat (?row i)) [0..<n] ! i ! (j * d + p)"
    using i by (intro nth_concat_uniform [OF blocks _ jp]) simp
  then have "concat (map (\<lambda>i. concat (?row i)) [0..<n]) ! ((i * length ts + j) * d + p)
      = map (\<lambda>i. concat (?row i)) [0..<n] ! i ! (j * d + p)"
    by (simp only: eq)
  also have "\<dots> = concat (?row i) ! (j * d + p)" using i by simp
  also have "\<dots> = ?row i ! j ! p"
    using nth_concat_uniform [OF inner [OF i] _ p, of j] j by simp
  also have "\<dots> = elems (ts ! j) ! (i * d + p)"
  proof -
    have "length (elems (ts ! j)) = n * d" using len j by simp
    moreover have "i * d \<le> n * d" using i by (intro mult_le_mono1) simp
    ultimately show ?thesis using j p by simp
  qed
  finally show ?thesis .
qed

lemma stack1_mean_matrices:
  assumes ne: "ts \<noteq> []" and sh: "\<forall>t\<in>set ts. shape t = [n, d]"
    and len: "\<forall>t\<in>set ts. length (elems t) = n * d"
  shows "and_then (stack1 ts) (mean_dim 1) = Inr \<lparr>shape = [n, d],
      elems = concat (map (\<lambda>i. map (\<lambda>k.
                (\<Sum>l<length ts. elems (ts ! l) ! (i * d + k)) / real (length ts))
              [0..<d]) [0..<n])\<rparr>"
proof -
  let ?st = "\<lparr>shape = [n, length ts, d],
      elems = concat (map (\<lambda>i. concat (map (\<lambda>u. take d (drop (i * d) (elems u))) ts)) [0..<n])\<rparr>"
  let ?g = "\<lambda>xs :: real list. sum_list xs / real (length xs)"
  have cell: "?g (map (\<lambda>j. elems ?st ! ((i * length ts + j) * d + p)) [0..<length ts])
      = (\<Sum>l<length ts. elems (ts ! l) ! (i * d + p)) / real (length ts)"
    if "i < n" "p < d" for i p
  proof -
    have "map (\<lambda>j. elems ?st ! ((i * length ts + j) * d + p)) [0..<length ts]
        = map (\<lambda>j. elems (ts ! j) ! (i * d + p)) [0..<length ts]"
      by (rule map_cong [OF refl]) (use stacked_nth [OF len that(1) _ that(2)] in simp)
    then show ?thesis by (simp add: sum_list_upt_lessThan)
  qed
  have rows: "map (\<lambda>p. ?g (map (\<lambda>j. elems ?st ! ((i * length ts + j) * d + p)) [0..<length ts])) [0..<d]
      = map (\<lambda>k. (\<Sum>l<length ts. elems (ts ! l) ! (i * d + k)) / real (length ts)) [0..<d]"
    if "i < n" for i
    by (rule map_cong [OF refl]) (use cell [OF that] in simp)
  have grid: "map (\<lambda>i. map (\<lambda>p. ?g (map (\<lambda>j. elems ?st ! ((i * length ts + j) * d + p))
          [0..<length ts])) [0..<d]) [0..<n]
      = map (\<lambda>i. map (\<lambda>k. (\<Sum>l<length ts. elems (ts ! l) ! (i * d + k)) / real (length ts))
          [0..<d]) [0..<n]"
    by (rule map_cong [OF refl]) (use rows in simp)
  have "mean_dim 1 ?st = Inr \<lparr>shape = [n, d],
      elems = concat (map (\<lambda>i. map (\<lambda>p. ?g (map (\<lambda>j. elems ?st ! ((i * length ts + j) * d + p))
          [0..<length ts])) [0..<d]) [0..<n])\<rparr>"
    by (simp add: mean_dim_def reduce_dim_def Let_def)
  then show ?thesis
    unfolding stack1_matrices [OF ne sh] grid by simp
qed

lemma all_of_indexed:
  assumes "length lst = Suc l" and "\<forall>k\<le>l. P (lst ! k)" and "t \<in> set lst"
  shows "P t"
proof -
  obtain k where k: "k < length lst" "lst ! k = t"
    using assms(3) unfolding in_set_conv_nth by blast
  have "k \<le> l" using k(1) assms(1) by simp
  then have "P (lst ! k)" using assms(2) by blast
  then show ?thesis unfolding k(2) .
qed

lemma through_graph_stack:
  assumes e: "shape all_embeddings = [n, d]" and wf: "length (elems all_embeddings) = n * d"
    and adj: "sp_shape adj = (n, n)"
  shows "\<exists>lst. through_graph adj all_embeddings n_layers = and_then (stack1 lst) (mean_dim 1)
     \<and> lst \<noteq> [] \<and> length lst = Suc n_layers \<and> lst ! 0 = all_embeddings
     \<and> (\<forall>t\<in>set lst. shape t = [n, d]) \<and> (\<forall>t\<in>set lst. length (elems t) = n * d)
     \<and> (\<forall>k<n_layers. sparse_mm adj (lst ! k) = Inr (lst ! Suc k))"
proof -
  from through_graph_layers [OF e wf adj, of n_layers]
  obtain lst where all5:
    "through_graph adj all_embeddings n_layers = and_then (stack1 lst) (mean_dim 1)
     \<and> length lst = Suc n_layers \<and> lst ! 0 = all_embeddings
     \<and> (\<forall>k\<le>n_layers. shape (lst ! k) = [n, d] \<and> length (elems (lst ! k)) = n * d)
     \<and> (\<forall>k<n_layers. sparse_mm adj (lst ! k) = Inr (lst ! Suc k))" ..
  have run: "through_graph adj all_embeddings n_layers = and_then (stack1 lst) (mean_dim 1)"
    using all5 by (rule conjunct1)
  have len: "length lst = Suc n_layers"
    using all5 [THEN conjunct2] by (rule conjunct1)
  have first: "lst ! 0 = all_embeddings"
    using all5 [THEN conjunct2, THEN conjunct2] by (rule conjunct1)
  have ok: "\<forall>k\<le>n_layers. shape (lst ! k) = [n, d] \<and> length (elems (lst ! k)) = n * d"
    using all5 [THEN conjunct2, THEN conjunct2, THEN conjunct2] by (rule conjunct1)
  have step: "\<forall>k<n_layers. sparse_mm adj (lst ! k) = Inr (lst ! Suc k)"
    using all5 [THEN conjunct2, THEN conjunct2, THEN conjunct2] by (rule conjunct2)
  have ne: "lst \<noteq> []" using len by auto
  have every: "shape t = [n, d] \<and> length (elems t) = n * d" if "t \<in> set lst" for t
    by (rule all_of_indexed [where P = "\<lambda>t. shape t = [n, d] \<and> length (elems t) = n * d", OF len ok that])
  have shapes: "\<forall>t\<in>set lst. shape t = [n, d]" using every by simp
  have lens: "\<forall>t\<in>set lst. length (elems t) = n * d" using every by simp
  show ?thesis
    by (rule exI [of _ lst]) (intro conjI run ne len first shapes lens step)
qed


text \<open>
  C2. For a square adjacency \<open>A\<close> over \<open>n\<close> nodes, an \<open>n\<close> by \<open>d\<close> embedding matrix \<open>E\<close> and
  any number \<open>L\<close> of layers, \<open>through_graph\<close> returns the entrywise mean of the \<open>L + 1\<close>
  matrices \<open>E\<close>, \<open>A E\<close>, ..., \<open>A^L E\<close>, each the sparse product of \<open>A\<close> with the one before;
  nothing but \<open>A\<close>, \<open>E\<close> and \<open>L\<close> enters the result.
\<close>

theorem through_graph_mean_of_layers:
  assumes e: "shape all_embeddings = [n, d]" and wf: "length (elems all_embeddings) = n * d"
    and adj: "sp_shape adj = (n, n)"
  shows "\<exists>layers. length layers = n_layers + 1 \<and> layers ! 0 = all_embeddings
     \<and> (\<forall>l<n_layers. sparse_mm adj (layers ! l) = Inr (layers ! Suc l))
     \<and> through_graph adj all_embeddings n_layers = Inr \<lparr>shape = [n, d],
          elems = concat (map (\<lambda>i. map (\<lambda>k.
                    (\<Sum>l\<le>n_layers. elems (layers ! l) ! (i * d + k)) / real (n_layers + 1))
                  [0..<d]) [0..<n])\<rparr>"
proof -
  from through_graph_stack [OF e wf adj, of n_layers]
  obtain lst where all7:
    "through_graph adj all_embeddings n_layers = and_then (stack1 lst) (mean_dim 1)
     \<and> lst \<noteq> [] \<and> length lst = Suc n_layers \<and> lst ! 0 = all_embeddings
     \<and> (\<forall>t\<in>set lst. shape t = [n, d]) \<and> (\<forall>t\<in>set lst. length (elems t) = n * d)
     \<and> (\<forall>k<n_layers. sparse_mm adj (lst ! k) = Inr (lst ! Suc k))" ..
  note run = all7 [THEN conjunct1]
  note ne = all7 [THEN conjunct2, THEN conjunct1]
  note len = all7 [THEN conjunct2, THEN conjunct2, THEN conjunct1]
  note first = all7 [THEN conjunct2, THEN conjunct2, THEN conjunct2, THEN conjunct1]
  note shapes = all7 [THEN conjunct2, THEN conjunct2, THEN conjunct2, THEN conjunct2, THEN conjunct1]
  note lens = all7 [THEN conjunct2, THEN conjunct2, THEN conjunct2, THEN conjunct2, THEN conjunct2,
      THEN conjunct1]
  note step = all7 [THEN conjunct2, THEN conjunct2, THEN conjunct2, THEN conjunct2, THEN conjunct2,
      THEN conjunct2]
  have mean: "and_then (stack1 lst) (mean_dim 1) = Inr \<lparr>shape = [n, d],
      elems = concat (map (\<lambda>i. map (\<lambda>k.
                (\<Sum>l<length lst. elems (lst ! l) ! (i * d + k)) / real (length lst))
              [0..<d]) [0..<n])\<rparr>"
    by (rule stack1_mean_matrices [OF ne shapes lens])
  have suc: "Suc n_layers = n_layers + 1" by simp
  have res: "through_graph adj all_embeddings n_layers = Inr \<lparr>shape = [n, d],
          elems = concat (map (\<lambda>i. map (\<lambda>k.
                    (\<Sum>l\<le>n_layers. elems (lst ! l) ! (i * d + k)) / real (n_layers + 1))
                  [0..<d]) [0..<n])\<rparr>"
    unfolding run mean len lessThan_Suc_atMost by simp
  have len': "length lst = n_layers + 1" using len by simp
  show ?thesis
    by (rule exI [of _ lst]) (intro conjI len' first step res)
qed


theorem through_graph_mean_of_layers_witness:
  "through_graph toy_kg_adj toy_entity_table 2 =
     Inr \<lparr>shape = [4, 2], elems = [0, 0, 11 / 12, 2 / 3, 5 / 12, 2 / 3, 1, 11 / 12]\<rparr>"
proof -
  let ?l1 = "\<lparr>shape = [4, 2], elems = [0, 0, 1, 3 / 2, 1, 1, 1 / 2, 0 :: real]\<rparr>"
  let ?l2 = "\<lparr>shape = [4, 2], elems = [0, 0, 3 / 4, 1 / 2, 1 / 4, 0, 1 / 2, 3 / 4 :: real]\<rparr>"
  have h1: "shape toy_entity_table = [4, 2]" by (simp add: toy_entity_table_def)
  have h2: "length (elems toy_entity_table) = 4 * 2" by (simp add: toy_entity_table_def)
  have h3: "sp_shape toy_kg_adj = (4, 4)" by (simp add: toy_kg_adj_def)
  from through_graph_mean_of_layers [OF h1 h2 h3, of 2]
  obtain layers where all4: "length layers = 2 + 1 \<and> layers ! 0 = toy_entity_table
     \<and> (\<forall>l<2. sparse_mm toy_kg_adj (layers ! l) = Inr (layers ! Suc l))
     \<and> through_graph toy_kg_adj toy_entity_table 2 = Inr \<lparr>shape = [4, 2],
          elems = concat (map (\<lambda>i. map (\<lambda>k.
                    (\<Sum>l\<le>2. elems (layers ! l) ! (i * 2 + k)) / real (2 + 1))
                  [0..<2]) [0..<4])\<rparr>" ..
  note first = all4 [THEN conjunct2, THEN conjunct1]
  note step = all4 [THEN conjunct2, THEN conjunct2, THEN conjunct1]
  note res = all4 [THEN conjunct2, THEN conjunct2, THEN conjunct2]
  have m1: "sparse_mm toy_kg_adj toy_entity_table = Inr ?l1" by code_simp
  have m2: "sparse_mm toy_kg_adj ?l1 = Inr ?l2" by code_simp
  have "sparse_mm toy_kg_adj (layers ! 0) = Inr (layers ! Suc 0)"
    using step [THEN spec, of 0] by simp
  then have l1: "layers ! Suc 0 = ?l1" unfolding first m1 by simp
  have "sparse_mm toy_kg_adj (layers ! Suc 0) = Inr (layers ! Suc (Suc 0))"
    using step [THEN spec, of "Suc 0"] by simp
  then have l2: "layers ! Suc (Suc 0) = ?l2" unfolding l1 m2 by simp
  have s: "(\<Sum>l\<le>2. f l) = f 0 + f (Suc 0) + f (Suc (Suc 0))" for f :: "nat \<Rightarrow> real"
    by (simp add: numeral_2_eq_2)
  have v: "concat (map (\<lambda>i. map (\<lambda>k.
        (elems toy_entity_table ! (i * 2 + k) + elems ?l1 ! (i * 2 + k) + elems ?l2 ! (i * 2 + k))
          / real (2 + 1)) [0..<2]) [0..<4])
      = [0, 0, 11 / 12, 2 / 3, 5 / 12, 2 / 3, 1, 11 / 12]"
    by code_simp
  show ?thesis unfolding res s first l1 l2 v ..
qed

end
